theory Spec2Isabelle
  imports Main "HOL-Library.Word"
begin

unbundle bit_operations_syntax

section \<open>The Epilog laser driver: data model\<close>

text \<open>
  The program keeps its job configuration in file-scope variables. They are gathered
  here in one record that every stage receives and, where the C code assigns a global
  (the raster encoder reloads \<open>width\<close> and \<open>height\<close> from the bitmap header), returns.
  A C \<open>int\<close> is modelled as an unbounded \<open>int\<close>: the model agrees with the program as
  long as no signed arithmetic overflows, which at the sizes the driver handles (a row
  of at most 102400 bytes, percentages, a resolution of at most 1200) it does not.
  Bytes of the bitmap and of the packing array are \<open>8 word\<close>; text written to the job
  file and to the socket is a \<open>string\<close>, one \<open>char\<close> per byte.
\<close>

type_synonym byte = "8 word"

record config =
  focus :: int
  height :: int
  job_name :: string
  job_user :: string
  job_title :: string
  resolution :: int
  raster_mode :: char
  raster_speed :: int
  raster_power :: int
  raster_repeat :: int
  screen_size :: int
  queue :: string
  vector_speed :: int
  vector_power :: int
  vector_freq :: int
  width :: int
  x_center :: int
  x_repeat :: int
  y_center :: int
  y_repeat :: int

text \<open>The initial values of the globals (the \<open>#define\<close>d defaults of the source), with
  the job names as \<open>main\<close> sets them when no option names the job and the input is
  read from \<open>stdin\<close>.\<close>

definition default_config :: config where
  "default_config =
     \<lparr> focus = 0, height = 864, job_name = ''stdin'', job_user = ''user'',
       job_title = ''stdin'', resolution = 600, raster_mode = CHR ''m'',
       raster_speed = 100, raster_power = 40, raster_repeat = 1, screen_size = 8,
       queue = '''', vector_speed = 30, vector_power = 50, vector_freq = 5000,
       width = 1728, x_center = 0, x_repeat = 1, y_center = 0, y_repeat = 1 \<rparr>"

subsection \<open>\<open>range_checks\<close>\<close>

text \<open>
  Each \<open>if ... else if ...\<close> statement of the source is one function here, with the
  source's order of the two tests; \<open>range_checks\<close> runs them in the source's order.
\<close>

definition check_raster_power :: "config \<Rightarrow> config" where
  "check_raster_power c =
     (if raster_power c > 100 then c\<lparr>raster_power := 100\<rparr>
      else if raster_power c < 0 then c\<lparr>raster_power := 0\<rparr> else c)"

definition check_raster_speed :: "config \<Rightarrow> config" where
  "check_raster_speed c =
     (if raster_speed c > 100 then c\<lparr>raster_speed := 100\<rparr>
      else if raster_speed c < 1 then c\<lparr>raster_speed := 1\<rparr> else c)"

definition check_resolution :: "config \<Rightarrow> config" where
  "check_resolution c =
     (if resolution c > 1200 then c\<lparr>resolution := 1200\<rparr>
      else if resolution c < 75 then c\<lparr>resolution := 75\<rparr> else c)"

definition check_screen_size :: "config \<Rightarrow> config" where
  "check_screen_size c = (if screen_size c < 1 then c\<lparr>screen_size := 1\<rparr> else c)"

definition check_vector_freq :: "config \<Rightarrow> config" where
  "check_vector_freq c =
     (if vector_freq c < 10 then c\<lparr>vector_freq := 10\<rparr>
      else if vector_freq c > 5000 then c\<lparr>vector_freq := 5000\<rparr> else c)"

definition check_vector_power :: "config \<Rightarrow> config" where
  "check_vector_power c =
     (if vector_power c > 100 then c\<lparr>vector_power := 100\<rparr>
      else if vector_power c < 0 then c\<lparr>vector_power := 0\<rparr> else c)"

definition check_vector_speed :: "config \<Rightarrow> config" where
  "check_vector_speed c =
     (if vector_speed c > 100 then c\<lparr>vector_speed := 100\<rparr>
      else if vector_speed c < 1 then c\<lparr>vector_speed := 1\<rparr> else c)"

definition range_checks :: "config \<Rightarrow> config" where
  "range_checks c =
     check_vector_speed (check_vector_power (check_vector_freq (check_screen_size
       (check_resolution (check_raster_speed (check_raster_power c))))))"

text \<open>The documented ranges of the bounded fields, as a predicate on a configuration.\<close>

definition in_bounds :: "config \<Rightarrow> bool" where
  "in_bounds c =
     (0 \<le> raster_power c \<and> raster_power c \<le> 100 \<and>
      1 \<le> raster_speed c \<and> raster_speed c \<le> 100 \<and>
      75 \<le> resolution c \<and> resolution c \<le> 1200 \<and>
      1 \<le> screen_size c \<and>
      10 \<le> vector_freq c \<and> vector_freq c \<le> 5000 \<and>
      0 \<le> vector_power c \<and> vector_power c \<le> 100 \<and>
      1 \<le> vector_speed c \<and> vector_speed c \<le> 100)"

section \<open>Formatted output\<close>

text \<open>
  \<open>fprintf\<close> with \<open>%d\<close>, \<open>%03d\<close>, \<open>%04d\<close> and \<open>%u\<close>: the decimal digits, a minus sign for
  a negative number, and zeros between the sign and the digits up to the field width.
\<close>

definition digit_char :: "nat \<Rightarrow> char" where
  "digit_char d = ''0123456789'' ! d"

fun dec_nat :: "nat \<Rightarrow> string" where
  "dec_nat n = (if n < 10 then [digit_char n] else dec_nat (n div 10) @ [digit_char (n mod 10)])"

declare dec_nat.simps [simp del]

definition fmt_d :: "int \<Rightarrow> string" where
  "fmt_d i = (if i < 0 then CHR ''-'' # dec_nat (nat (- i)) else dec_nat (nat i))"

definition zero_pad :: "nat \<Rightarrow> string \<Rightarrow> string" where
  "zero_pad w s = replicate (w - length s) CHR ''0'' @ s"

definition fmt_0d :: "nat \<Rightarrow> int \<Rightarrow> string" where
  "fmt_0d w i =
     (if i < 0 then CHR ''-'' # zero_pad (w - 1) (dec_nat (nat (- i)))
      else zero_pad w (dec_nat (nat i)))"

definition ESC :: char where "ESC = CHR 0x1B"
definition CR :: char where "CR = CHR 0x0D"
definition LF :: char where "LF = CHR 0x0A"
definition NUL :: char where "NUL = CHR 0x00"

text \<open>C integer division truncates toward zero; every divisor in the program is checked
  or constant, except where noted at the use.\<close>

definition cdiv :: "int \<Rightarrow> int \<Rightarrow> int" where
  "cdiv a b = sgn a * sgn b * (\<bar>a\<bar> div \<bar>b\<bar>)"

text \<open>What the program writes to \<open>stderr\<close>: a formatted message, or \<open>perror\<close>'s message
  (followed in the C library by the text of the current \<open>errno\<close>, which is left out).\<close>

datatype message = Printed string | Perror string

section \<open>The raster encoder\<close>

subsection \<open>Run-length packing of one line\<close>

text \<open>
  \<open>static char buf[102400]\<close> is the working buffer, and the packing array of
  \<open>generate_raster\<close> is \<open>unsigned char pack[sizeof (buf) * 5 / 4 + 1]\<close>.
\<close>

definition sizeof_buf :: nat where "sizeof_buf = 102400"

definition sizeof_pack :: nat where "sizeof_pack = sizeof_buf * 5 div 4 + 1"

text \<open>
  The packer works on the active range \<open>buf[l..r)\<close>, here the list \<open>xs\<close>; advancing \<open>l\<close>
  is dropping from the front of the list.

  \<open>for (p = l; p < r && p < l + 128 && buf[p] == buf[l]; p++)\<close>: the number of leading
  bytes equal to the first, at most 128.
\<close>

definition run_length :: "byte list \<Rightarrow> nat" where
  "run_length xs = length (takeWhile (\<lambda>b. b = hd xs) (take 128 xs))"

text \<open>
  \<open>for (p = l; p < r && p < l + 127 && (p + 1 == r || buf[p] != buf[p + 1]); p++)\<close>: the
  literal stops before a byte that equals its successor, at the end of the range, or
  after \<open>k = 127\<close> bytes.
\<close>

fun literal_length :: "nat \<Rightarrow> byte list \<Rightarrow> nat" where
  "literal_length k [] = 0"
| "literal_length k [x] = (if 0 < k then 1 else 0)"
| "literal_length k (x # y # ys) =
     (if 0 < k \<and> x \<noteq> y then Suc (literal_length (k - 1) (y # ys)) else 0)"

text \<open>
  The packing loop \<open>while (l < r)\<close>. \<open>n\<close> is the write index into \<open>pack\<close>. Every
  \<open>pack[n++] = ...\<close> must have \<open>n < sizeof pack\<close>; a run writes two bytes and a literal
  of \<open>j\<close> bytes writes \<open>1 + j\<close>. A write past the end of the array has no defined
  behaviour in C: the model returns \<open>None\<close> there. Otherwise the result is the bytes
  stored from index \<open>n\<close> on.
\<close>

function pack_from :: "nat \<Rightarrow> byte list \<Rightarrow> byte list option" where
  "pack_from n xs =
     (if xs = [] then Some []
      else if 2 \<le> run_length xs then
        (if n + 2 \<le> sizeof_pack
         then map_option (\<lambda>ps. of_nat (257 - run_length xs) # hd xs # ps)
                (pack_from (n + 2) (drop (run_length xs) xs))
         else None)
      else
        (if n + 1 + literal_length 127 xs \<le> sizeof_pack
         then map_option
                (\<lambda>ps. of_nat (literal_length 127 xs - 1) # take (literal_length 127 xs) xs @ ps)
                (pack_from (n + 1 + literal_length 127 xs) (drop (literal_length 127 xs) xs))
         else None))"
  by pat_completeness auto
termination
proof (relation "measure (\<lambda>(n, xs). length xs)")
  show "wf (measure (\<lambda>(n, xs). length xs))" by simp
next
  fix n :: nat and xs :: "byte list"
  assume "xs \<noteq> []" "2 \<le> run_length xs"
  then show "((n + 2, drop (run_length xs) xs), (n, xs)) \<in> measure (\<lambda>(n, xs). length xs)"
    by simp
next
  fix n :: nat and xs :: "byte list"
  assume ne: "xs \<noteq> []" and short: "\<not> 2 \<le> run_length xs"
  have "0 < literal_length 127 xs"
  proof (cases xs)
    case Nil
    with ne show ?thesis by simp
  next
    case (Cons x ys)
    show ?thesis
    proof (cases ys)
      case Nil
      with Cons show ?thesis by simp
    next
      case (Cons y zs)
      with short \<open>xs = x # ys\<close> have "x \<noteq> y"
        by (auto simp: run_length_def)
      with Cons \<open>xs = x # ys\<close> show ?thesis by simp
    qed
  qed
  with ne show "((n + 1 + literal_length 127 xs, drop (literal_length 127 xs) xs), (n, xs))
                  \<in> measure (\<lambda>(n, xs). length xs)"
    by simp
qed

declare pack_from.simps [simp del]

text \<open>
  After the packed bytes: \<open>r = n; while (r & 7) { r++; fputc(0x80, pjl_file); }\<close>.
  For a count \<open>r \<ge> 0\<close>, \<open>r & 7\<close> is \<open>r mod 8\<close>.
\<close>

function padding :: "nat \<Rightarrow> byte list" where
  "padding r = (if r mod 8 \<noteq> 0 then 0x80 # padding (r + 1) else [])"
  by pat_completeness auto
termination
proof (relation "measure (\<lambda>r. (8 - r mod 8) mod 8)")
  show "wf (measure (\<lambda>r::nat. (8 - r mod 8) mod 8))" by simp
next
  fix r :: nat
  assume nz: "r mod 8 \<noteq> 0"
  have lt: "r mod 8 < 8" by simp
  have "(8 - (r + 1) mod 8) mod 8 < (8 - r mod 8) mod 8"
  proof (cases "Suc (r mod 8) = 8")
    case True
    then show ?thesis by (simp add: mod_Suc)
  next
    case False
    with nz lt show ?thesis by (simp add: mod_Suc)
  qed
  then show "(r + 1, r) \<in> measure (\<lambda>r. (8 - r mod 8) mod 8)" by simp
qed

declare padding.simps [simp del]

text \<open>
  The decoder of the scheme as the specification words it, for comparison with the
  packer: a control byte \<open>c\<close> above 128 stands for \<open>257 - c\<close> copies of the next byte, a
  control byte below 128 for the \<open>c + 1\<close> literal bytes that follow, and the filler byte
  \<open>0x80\<close> for nothing. \<open>None\<close> is a stream that ends inside an item.
\<close>

fun spec_unpack :: "byte list \<Rightarrow> byte list option" where
  "spec_unpack [] = Some []"
| "spec_unpack (c # rest) =
     (if unat c = 128 then spec_unpack rest
      else if 128 < unat c then
        (case rest of
           [] \<Rightarrow> None
         | b # rest' \<Rightarrow> map_option (\<lambda>ys. replicate (257 - unat c) b @ ys) (spec_unpack rest'))
      else if length rest < unat c + 1 then None
      else map_option (\<lambda>ys. take (unat c + 1) rest @ ys) (spec_unpack (drop (unat c + 1) rest)))"

text \<open>A line of \<open>3 m + 1\<close> bytes in which single bytes alternate with pairs.\<close>

fun zebra :: "nat \<Rightarrow> byte list" where
  "zebra 0 = [1]"
| "zebra (Suc m) = 1 # 2 # 2 # zebra m"

subsection \<open>Files and the bitmap header\<close>

text \<open>
  The bitmap stream: its bytes and the read position. \<open>fread\<close> returns the bytes it
  could read (fewer than asked at the end of the file) and advances; \<open>fseek\<close> with
  \<open>SEEK_SET\<close> fails on a negative offset and leaves the position alone (the program
  ignores its result). Text is written to a file one \<open>char\<close> per byte.
\<close>

record bitmap_file =
  contents :: "byte list"
  offset :: nat

definition fread :: "nat \<Rightarrow> bitmap_file \<Rightarrow> byte list \<times> bitmap_file" where
  "fread n f =
     (let data = take n (drop (offset f) (contents f))
      in (data, f\<lparr>offset := offset f + length data\<rparr>))"

definition fseek :: "int \<Rightarrow> bitmap_file \<Rightarrow> bitmap_file" where
  "fseek off f = (if off < 0 then f else f\<lparr>offset := nat off\<rparr>)"

definition bytes_of :: "string \<Rightarrow> byte list" where
  "bytes_of s = map of_char s"

text \<open>What the encoder reads and reports besides the job file: the bitmap stream and
  \<open>stderr\<close>.\<close>

record world =
  bitmap :: bitmap_file
  stderr :: "message list"

text \<open>
  \<open>big_to_little_endian\<close>: \<open>result += *(position + i) << (8 * i)\<close> for \<open>i < nbytes\<close>, in a
  32-bit \<open>int\<close>. The array \<open>bitmap_header\<close> is a function from index to byte.
\<close>

definition big_to_little_endian :: "(nat \<Rightarrow> byte) \<Rightarrow> nat \<Rightarrow> nat \<Rightarrow> int" where
  "big_to_little_endian header position nbytes =
     sint (word_of_int
       (foldl (\<lambda>result i. result + uint (header (position + i)) * 2 ^ (8 * i)) 0 [0..<nbytes])
       :: 32 word)"

subsection \<open>Reading and converting one row\<close>

text \<open>
  Colour mode, the body of \<open>while (l--)\<close> for one pixel. \<open>colour_channel\<close> is one round of
  \<open>for (c = 0; c < 3; c++)\<close> on the triple \<open>(p, n, v)\<close>; \<open>pixel_mask_value\<close> is \<open>(p, v)\<close>
  after \<open>if (n) v /= n; else { p = 0; v = 255; }\<close>; \<open>colour_pixel\<close> is the byte stored by
  \<open>*t++ = 255 - v\<close> after \<open>if (p != pass) v = 255\<close>.
\<close>

definition colour_channel :: "nat \<Rightarrow> byte \<Rightarrow> int \<times> int \<times> int \<Rightarrow> int \<times> int \<times> int" where
  "colour_channel ch f pnv =
     (case pnv of (p, n, v) \<Rightarrow>
        if 240 < uint f then (p OR push_bit ch 1, n, v) else (p, n + 1, v + uint f))"

definition pixel_mask_value :: "byte \<Rightarrow> byte \<Rightarrow> byte \<Rightarrow> int \<times> int" where
  "pixel_mask_value f0 f1 f2 =
     (case colour_channel 2 f2 (colour_channel 1 f1 (colour_channel 0 f0 (0, 0, 0))) of
        (p, n, v) \<Rightarrow> if n \<noteq> 0 then (p, cdiv v n) else (0, 255))"

definition colour_pixel :: "int \<Rightarrow> byte \<Rightarrow> byte \<Rightarrow> byte \<Rightarrow> byte" where
  "colour_pixel pass f0 f1 f2 =
     (case pixel_mask_value f0 f1 f2 of
        (p, v) \<Rightarrow> word_of_int (255 - (if p \<noteq> pass then 255 else v)))"

text \<open>
  The loop \<open>while (l--)\<close> runs \<open>d\<close> rounds, \<open>l\<close> being the \<open>d\<close> that \<open>fread\<close> returned. It
  reads three bytes per round at \<open>f\<close> and stores one at \<open>t\<close>, both starting at \<open>buf\<close>: round
  \<open>i\<close> reads \<open>buf[3i..3i+2]\<close> and then writes \<open>buf[i]\<close>, so no round reads a byte that an
  earlier round has written. The last round reads \<open>buf[3d-1]\<close>:
  \<open>colour_reads_past_buf\<close> says that this is past the end of \<open>buf\<close>, which is the case
  for every row of 11378 pixels or more, and the behaviour of the program is then
  undefined. Otherwise the rounds below \<open>d div 3\<close> read the row as it came from the file,
  and \<open>colour_line\<close> gives what they store, \<open>buf[0..d div 3)\<close>; the later rounds read
  bytes of \<open>buf\<close> behind the row and store into \<open>buf[d div 3..d)\<close>, which lies behind
  \<open>buf[0..h)\<close>, the only part used afterwards, since \<open>3 h \<le> d\<close>.
\<close>

definition colour_reads_past_buf :: "int \<Rightarrow> bool" where
  "colour_reads_past_buf d = (0 < d \<and> int sizeof_buf \<le> 3 * d - 1)"

fun colour_line :: "int \<Rightarrow> byte list \<Rightarrow> byte list" where
  "colour_line pass (f0 # f1 # f2 # fs) = colour_pixel pass f0 f1 f2 # colour_line pass fs"
| "colour_line pass fs = []"

text \<open>\<open>(n + 3) / 4 * 4\<close>, and the test \<open>d > sizeof (buf)\<close>, in which the \<open>int d\<close> is
  converted to the unsigned type of \<open>sizeof\<close>: a negative \<open>d\<close> compares as huge.\<close>

definition padded4 :: "int \<Rightarrow> int" where
  "padded4 n = cdiv (n + 3) 4 * 4"

definition too_wide :: "int \<Rightarrow> bool" where
  "too_wide d = (d < 0 \<or> int sizeof_buf < d)"

definition bad_bit_data :: "int \<Rightarrow> int \<Rightarrow> int \<Rightarrow> message" where
  "bad_bit_data l d y =
     Printed (''Bad bit data from gs '' @ fmt_d l @ ''/'' @ fmt_d d @ '' (y='' @ fmt_d y @ '')'' @ [LF])"

text \<open>
  The \<open>switch (raster_mode)\<close> at the head of the row loop. \<open>Some (Inl w)\<close> is
  \<open>return false\<close>, with the message written to \<open>stderr\<close>; \<open>Some (Inr (row, w))\<close> carries
  \<open>buf[0..h)\<close> after the conversion; \<open>None\<close> is the colour loop reading past the end of
  \<open>buf\<close>. The grey and mono cases declare their own \<open>d\<close>.
\<close>

definition read_row ::
  "message \<Rightarrow> int \<Rightarrow> int \<Rightarrow> world \<Rightarrow> world + (byte list \<times> world)" where
  "read_row wide d y w =
     (if too_wide d then Inl (w\<lparr>stderr := stderr w @ [wide]\<rparr>)
      else case fread (nat d) (bitmap w) of
        (data, f) \<Rightarrow>
          if int (length data) \<noteq> d
          then Inl (w\<lparr>bitmap := f, stderr := stderr w @ [bad_bit_data (int (length data)) d y]\<rparr>)
          else Inr (data, w\<lparr>bitmap := f\<rparr>))"

definition load_row ::
  "config \<Rightarrow> int \<Rightarrow> int \<Rightarrow> int \<Rightarrow> int \<Rightarrow> world \<Rightarrow> (world + (byte list \<times> world)) option" where
  "load_row c pass h d y w =
     (if raster_mode c = CHR ''c'' then
        (case read_row (Perror ''Too wide'') d y w of
           Inl w' \<Rightarrow> Some (Inl w')
         | Inr (data, w') \<Rightarrow>
             if colour_reads_past_buf d then None
             else Some (Inr (take (nat h) (colour_line pass data), w')))
      else if raster_mode c = CHR ''g'' then
        (case read_row (Printed (''Too wide'' @ [LF])) (padded4 h) y w of
           Inl w' \<Rightarrow> Some (Inl w')
         | Inr (data, w') \<Rightarrow> Some (Inr (map (\<lambda>b. 255 - b) (take (nat h) data), w')))
      else
        (case read_row (Perror ''Too wide'') (padded4 h) y w of
           Inl w' \<Rightarrow> Some (Inl w')
         | Inr (data, w') \<Rightarrow> Some (Inr (take (nat h) data, w'))))"

definition colour_or_grey :: "config \<Rightarrow> bool" where
  "colour_or_grey c = (raster_mode c = CHR ''c'' \<or> raster_mode c = CHR ''g'')"

text \<open>\<open>buf[l] = (uint8_t)buf[l] * raster_power / 255\<close> for \<open>l < h\<close>, in colour and grey
  mode.\<close>

definition power_scale :: "config \<Rightarrow> byte list \<Rightarrow> byte list" where
  "power_scale c row =
     (if colour_or_grey c
      then map (\<lambda>b. word_of_int (cdiv (uint b * raster_power c) 255)) row
      else row)"

subsection \<open>Emitting one line\<close>

text \<open>
  \<open>row\<close> is \<open>buf[0..h)\<close>. \<open>l\<close> is the number of leading zero bytes; when \<open>l < h\<close> the active
  range \<open>buf[l..r)\<close> ends after the last non-zero byte. The line is positioned, its bytes
  reversed when \<open>dir\<close> is set, packed, and written with its padding. \<open>x0\<close> and \<open>y0\<close> are
  \<open>basex + offx\<close> and \<open>basey + offy\<close>. The result is the bytes written and the new \<open>dir\<close>;
  \<open>None\<close> when the packer writes past the end of \<open>pack\<close>.
\<close>

definition emit_line ::
  "config \<Rightarrow> int \<Rightarrow> int \<Rightarrow> int \<Rightarrow> bool \<Rightarrow> byte list \<Rightarrow> (byte list \<times> bool) option" where
  "emit_line c x0 y0 y dir row =
     (let l = length (takeWhile (\<lambda>b. b = 0) row) in
      if l < length row then
        (let active = rev (dropWhile (\<lambda>b. b = 0) (rev (drop l row)));
             line = (if dir then rev active else active)
         in case pack_from 0 line of
              None \<Rightarrow> None
            | Some pk \<Rightarrow>
                Some (bytes_of (ESC # ''*p'' @ fmt_d (y0 + y) @ ''Y'') @
                      bytes_of (ESC # ''*p'' @
                        fmt_d (x0 + (if colour_or_grey c then int l else int l * 8)) @ ''X'') @
                      bytes_of (ESC # ''*b'' @
                        fmt_d (if dir then - int (length active) else int (length active)) @ ''A'') @
                      bytes_of (ESC # ''*b'' @ fmt_d (cdiv (int (length pk) + 7) 8 * 8) @ ''W'') @
                      pk @ padding (length pk),
                      \<not> dir))
      else Some ([], dir))"

subsection \<open>The loops of \<open>generate_raster\<close>\<close>

text \<open>
  Every loop returns whether it ran to its end (\<open>False\<close>: a \<open>return false\<close> inside), the
  bytes it wrote to the job file, and the world; \<open>None\<close> when the colour loop reads past
  the end of \<open>buf\<close> or the packer writes past the end of \<open>pack\<close>. \<open>written_before bs\<close> puts
  the bytes \<open>bs\<close>, written earlier, in front of those of the rest of a loop.
\<close>

definition written_before ::
  "byte list \<Rightarrow> bool \<times> byte list \<times> world \<Rightarrow> bool \<times> byte list \<times> world" where
  "written_before bs r = (case r of (ok, out, w) \<Rightarrow> (ok, bs @ out, w))"

text \<open>\<open>for (y = height - 1; y >= 0; y--)\<close>:\<close>

function raster_rows ::
  "config \<Rightarrow> int \<Rightarrow> int \<Rightarrow> int \<Rightarrow> int \<Rightarrow> int \<Rightarrow> int \<Rightarrow> bool \<Rightarrow> world \<Rightarrow>
   (bool \<times> byte list \<times> world) option" where
  "raster_rows c x0 y0 pass h d y dir w =
     (if 0 \<le> y then
        (case load_row c pass h d y w of
           None \<Rightarrow> None
         | Some (Inl w') \<Rightarrow> Some (False, [], w')
         | Some (Inr (row, w')) \<Rightarrow>
             (case emit_line c x0 y0 y dir (power_scale c row) of
                None \<Rightarrow> None
              | Some (bs, dir') \<Rightarrow>
                  map_option (written_before bs)
                    (raster_rows c x0 y0 pass h d (y - 1) dir' w')))
      else Some (True, [], w))"
  by pat_completeness auto
termination
  by (relation "measure (\<lambda>(c, x0, y0, pass, h, d, y, dir, w). nat (y + 1))") auto

declare raster_rows.simps [simp del]

text \<open>\<open>for (pass = 0; pass < passes; pass++)\<close>, each pass starting with \<open>dir = 0\<close> and
  \<open>fseek(bitmap_file, base_offset, SEEK_SET)\<close>:\<close>

function raster_passes ::
  "config \<Rightarrow> int \<Rightarrow> int \<Rightarrow> int \<Rightarrow> int \<Rightarrow> int \<Rightarrow> int \<Rightarrow> int \<Rightarrow> world \<Rightarrow>
   (bool \<times> byte list \<times> world) option" where
  "raster_passes c x0 y0 passes base_offset h d pass w =
     (if pass < passes then
        (case raster_rows c x0 y0 pass h d (height c - 1) False
                (w\<lparr>bitmap := fseek base_offset (bitmap w)\<rparr>) of
           None \<Rightarrow> None
         | Some (ok, bs, w') \<Rightarrow>
             if ok then
               map_option (written_before bs)
                 (raster_passes c x0 y0 passes base_offset h d (pass + 1) w')
             else Some (False, bs, w'))
      else Some (True, [], w))"
  by pat_completeness auto
termination
  by (relation "measure (\<lambda>(c, x0, y0, passes, base_offset, h, d, pass, w). nat (passes - pass))")
     auto

declare raster_passes.simps [simp del]

text \<open>
  The tile loops \<open>for (offy = height * (y_repeat - 1); offy >= 0; offy -= height)\<close> inside
  \<open>for (offx = width * (x_repeat - 1); offx >= 0; offx -= width)\<close>. With a bitmap of height
  or width zero or less the counter never falls below zero and the loop does not end:
  the functions are partial, \<open>None\<close> also standing for a loop that runs forever.
\<close>

partial_function (option) raster_tiles_y ::
  "config \<Rightarrow> int \<Rightarrow> int \<Rightarrow> int \<Rightarrow> int \<Rightarrow> int \<Rightarrow> int \<Rightarrow> int \<Rightarrow> world \<Rightarrow>
   (bool \<times> byte list \<times> world) option" where
  "raster_tiles_y c x0 basey passes base_offset h d offy w =
     (if 0 \<le> offy then
        (case raster_passes c x0 (basey + offy) passes base_offset h d 0 w of
           None \<Rightarrow> None
         | Some (ok, bs, w') \<Rightarrow>
             if ok then
               Option.bind
                 (raster_tiles_y c x0 basey passes base_offset h d (offy - height c) w')
                 (\<lambda>r. Some (written_before bs r))
             else Some (False, bs, w'))
      else Some (True, [], w))"

partial_function (option) raster_tiles_x ::
  "config \<Rightarrow> int \<Rightarrow> int \<Rightarrow> int \<Rightarrow> int \<Rightarrow> int \<Rightarrow> int \<Rightarrow> int \<Rightarrow> world \<Rightarrow>
   (bool \<times> byte list \<times> world) option" where
  "raster_tiles_x c basex basey passes base_offset h d offx w =
     (if 0 \<le> offx then
        (case raster_tiles_y c (basex + offx) basey passes base_offset h d
                (height c * (y_repeat c - 1)) w of
           None \<Rightarrow> None
         | Some (ok, bs, w') \<Rightarrow>
             if ok then
               Option.bind
                 (raster_tiles_x c basex basey passes base_offset h d (offx - width c) w')
                 (\<lambda>r. Some (written_before bs r))
             else Some (False, bs, w'))
      else Some (True, [], w))"

subsection \<open>One repeat of the raster block, and \<open>generate_raster\<close>\<close>

text \<open>
  The head of the \<open>while (repeat--)\<close> body: the header is read into \<open>bitmap_header\<close> (a
  short read leaves the rest of the array as it was; the result of \<open>fread\<close> is not
  looked at), the globals \<open>width\<close> and \<open>height\<close> are reloaded from it, and the raster
  settings are written.
\<close>

definition read_header :: "(nat \<Rightarrow> byte) \<Rightarrow> world \<Rightarrow> (nat \<Rightarrow> byte) \<times> world" where
  "read_header header w =
     (case fread 54 (bitmap w) of
        (data, f) \<Rightarrow> ((\<lambda>i. if i < length data then data ! i else header i), w\<lparr>bitmap := f\<rparr>))"

text \<open>A configuration with the two reloaded fields blanked: what \<open>generate_raster\<close> leaves
  alone.\<close>

definition settings_without_size :: "config \<Rightarrow> config" where
  "settings_without_size c = c\<lparr>width := 0, height := 0\<rparr>"

definition reload_size :: "(nat \<Rightarrow> byte) \<Rightarrow> config \<Rightarrow> config" where
  "reload_size header c =
     c\<lparr>width := big_to_little_endian header 18 4, height := big_to_little_endian header 22 4\<rparr>"

definition row_bytes :: "config \<Rightarrow> int" where
  "row_bytes c = (if colour_or_grey c then width c else cdiv (width c + 7) 8)"

definition row_stride :: "config \<Rightarrow> int" where
  "row_stride c =
     (if colour_or_grey c then cdiv (row_bytes c * 3 + 3) 4 * 4 else cdiv (row_bytes c + 3) 4 * 4)"

definition raster_settings :: "config \<Rightarrow> byte list" where
  "raster_settings c =
     bytes_of (ESC # ''*r0F'') @
     bytes_of (ESC # ''&y'' @ fmt_d (if colour_or_grey c then 100 else raster_power c) @ ''P'') @
     bytes_of (ESC # ''&z'' @ fmt_d (raster_speed c) @ ''S'') @
     bytes_of (ESC # ''*r'' @ fmt_d (height c * y_repeat c) @ ''T'') @
     bytes_of (ESC # ''*r'' @ fmt_d (width c * x_repeat c) @ ''S'') @
     bytes_of (ESC # ''*b'' @ fmt_d (if colour_or_grey c then 7 else 2) @ ''M'') @
     bytes_of (ESC # ''&y1O'') @
     bytes_of (ESC # ''*r1A'')"

definition raster_end :: "byte list" where
  "raster_end = bytes_of (ESC # ''*rC'') @ [26, 4]"

definition raster_passes_count :: "config \<Rightarrow> int" where
  "raster_passes_count c = (if raster_mode c = CHR ''c'' then 7 else 1)"

text \<open>
  \<open>while (repeat--)\<close>. The result also carries the configuration, whose \<open>width\<close> and
  \<open>height\<close> the last header read has set. A negative \<open>raster_repeat\<close> counts down without
  reaching zero.
\<close>

partial_function (option) raster_repeats ::
  "int \<Rightarrow> int \<Rightarrow> int \<Rightarrow> config \<times> (nat \<Rightarrow> byte) \<times> world \<Rightarrow>
   (bool \<times> byte list \<times> config \<times> world) option" where
  "raster_repeats basex basey repeat st =
     (if repeat \<noteq> 0 then
        (case st of (c0, header0, w0) \<Rightarrow>
         case read_header header0 w0 of (header, w1) \<Rightarrow>
         case raster_tiles_x (reload_size header c0) basex basey
                (raster_passes_count (reload_size header c0))
                (big_to_little_endian header 10 4)
                (row_bytes (reload_size header c0)) (row_stride (reload_size header c0))
                (width (reload_size header c0) * (x_repeat (reload_size header c0) - 1)) w1 of
           None \<Rightarrow> None
         | Some (ok, bs, w2) \<Rightarrow>
             if ok then
               Option.bind
                 (raster_repeats basex basey (repeat - 1) (reload_size header c0, header, w2))
                 (\<lambda>r. case r of (ok', out, c', w') \<Rightarrow>
                    Some (ok', raster_settings (reload_size header c0) @ bs @ raster_end @ out, c', w'))
             else Some (False, raster_settings (reload_size header c0) @ bs, reload_size header c0, w2))
      else (case st of (c0, header0, w0) \<Rightarrow> Some (True, [], c0, w0)))"

text \<open>The origin of the tiles, computed from the globals as they are on entry.\<close>

definition base_origin :: "int \<Rightarrow> int \<Rightarrow> int \<Rightarrow> int" where
  "base_origin centre extent res =
     (let b = (if centre \<noteq> 0 then centre - cdiv extent 2 else 0);
          b = (if b < 0 then 0 else b)
      in cdiv (b * res) 72)"

definition generate_raster ::
  "(nat \<Rightarrow> byte) \<Rightarrow> config \<Rightarrow> world \<Rightarrow> (bool \<times> byte list \<times> config \<times> world) option" where
  "generate_raster header c w =
     raster_repeats (base_origin (x_center c) (width c) (resolution c))
       (base_origin (y_center c) (height c) (resolution c))
       (raster_repeat c) (c, header, w)"

section \<open>The vector encoder\<close>

subsection \<open>Reading the command stream\<close>

text \<open>
  The character classes of \<open>ctype.h\<close> in the C locale (the program never sets another),
  and \<open>sscanf\<close> with the formats \<open>"%d"\<close> and \<open>"%d,%d"\<close>: \<open>%d\<close> skips white space, takes an
  optional sign and then at least one digit; the comma must follow the first number at
  once. The result says which conversions were stored. The number goes into an \<open>int\<close> of
  32 bits: \<open>stored_int\<close> is the value the \<open>int\<close> holds, the digits being converted as by
  \<open>strtol\<close> to a \<open>long\<close> of 64 bits, which stays at its bound when the number is beyond it,
  and the \<open>int\<close> taking the low 32 bits. (The C standard leaves a number that does not fit
  the \<open>int\<close> undefined; this is what the C library does.)
\<close>

definition isalpha :: "char \<Rightarrow> bool" where
  "isalpha ch = (let n = (of_char ch :: nat) in (65 \<le> n \<and> n \<le> 90) \<or> (97 \<le> n \<and> n \<le> 122))"

definition isspace :: "char \<Rightarrow> bool" where
  "isspace ch = (let n = (of_char ch :: nat) in n = 32 \<or> (9 \<le> n \<and> n \<le> 13))"

definition isdigit :: "char \<Rightarrow> bool" where
  "isdigit ch = (let n = (of_char ch :: nat) in 48 \<le> n \<and> n \<le> 57)"

definition digits_value :: "string \<Rightarrow> nat" where
  "digits_value ds = foldl (\<lambda>a ch. 10 * a + (of_char ch - 48)) 0 ds"

definition scan_sign :: "string \<Rightarrow> bool \<times> string" where
  "scan_sign s =
     (case s of
        [] \<Rightarrow> (False, [])
      | ch # r \<Rightarrow> if ch = CHR ''-'' then (True, r) else if ch = CHR ''+'' then (False, r)
                 else (False, ch # r))"

definition stored_int :: "int \<Rightarrow> int" where
  "stored_int v = sint (word_of_int (max (- (2 ^ 63)) (min (2 ^ 63 - 1) v)) :: 32 word)"

definition scan_int :: "string \<Rightarrow> (int \<times> string) option" where
  "scan_int s =
     (case scan_sign (dropWhile isspace s) of
        (neg, s') \<Rightarrow>
          if takeWhile isdigit s' = [] then None
          else Some (stored_int (if neg then - int (digits_value (takeWhile isdigit s'))
                                 else int (digits_value (takeWhile isdigit s'))),
                     dropWhile isdigit s'))"

definition sscanf_d :: "string \<Rightarrow> int option" where
  "sscanf_d s = map_option fst (scan_int s)"

definition sscanf_d_d :: "string \<Rightarrow> int option \<times> int option" where
  "sscanf_d_d s =
     (case scan_int s of
        None \<Rightarrow> (None, None)
      | Some (a, r) \<Rightarrow>
          (case r of
             [] \<Rightarrow> (Some a, None)
           | ch # r' \<Rightarrow>
               if ch = CHR '','' then (Some a, map_option fst (scan_int r')) else (Some a, None)))"

text \<open>
  \<open>fgets(buf, sizeof (buf), vector_file)\<close> stores at most \<open>sizeof (buf) - 1\<close> characters
  and stops after a newline; at the end of the file it returns \<open>NULL\<close>. The string in
  \<open>buf\<close> ends at the first NUL; \<open>*buf\<close> is its first character, NUL when it is empty.
\<close>

fun fgets_take :: "nat \<Rightarrow> string \<Rightarrow> string \<times> string" where
  "fgets_take k [] = ([], [])"
| "fgets_take k (ch # cs) =
     (if k = 0 then ([], ch # cs)
      else if ch = CHR 0x0A then ([ch], cs)
      else (case fgets_take (k - 1) cs of (l, r) \<Rightarrow> (ch # l, r)))"

definition fgets :: "nat \<Rightarrow> string \<Rightarrow> (string \<times> string) option" where
  "fgets n s = (if s = [] then None else Some (fgets_take (n - 1) s))"

definition cstring :: "string \<Rightarrow> string" where
  "cstring s = takeWhile (\<lambda>ch. ch \<noteq> CHR 0x00) s"

definition first_char :: "string \<Rightarrow> char" where
  "first_char s = (case cstring s of [] \<Rightarrow> CHR 0x00 | ch # _ \<Rightarrow> ch)"

subsection \<open>The commands\<close>

text \<open>The local variables of \<open>generate_vector\<close>, the bytes it has written, and the number
  of lines it has read.\<close>

record vstate =
  up :: bool
  newline :: bool
  started :: bool
  passstart :: bool
  sx :: int
  sy :: int
  lx :: int
  ly :: int
  power :: int
  vout :: "byte list"
  nread :: nat

definition vput :: "string \<Rightarrow> vstate \<Rightarrow> vstate" where
  "vput t s = s\<lparr>vout := vout s @ bytes_of t\<rparr>"

text \<open>\<open>if (!passstart) { passstart = 1; ... }\<close>: the settings written once per tile.\<close>

definition preamble :: "config \<Rightarrow> vstate \<Rightarrow> vstate" where
  "preamble c s =
     (if passstart s then s
      else vput (''IN;'' @
                 ''XR'' @ fmt_0d 4 (vector_freq c) @ '';'' @
                 ''YP'' @ fmt_0d 3 (vector_power c) @ '';'' @
                 ''ZS'' @ fmt_0d 3 (vector_speed c) @ '';'') (s\<lparr>passstart := True\<rparr>))"

text \<open>\<open>case 'M'\<close>: the two numbers are read as \<open>y\<close> then \<open>x\<close>.\<close>

definition cmd_M :: "string \<Rightarrow> vstate \<Rightarrow> vstate" where
  "cmd_M args s =
     (case sscanf_d_d args of
        (Some y, Some x) \<Rightarrow> s\<lparr>sx := x, sy := y, newline := True\<rparr>
      | _ \<Rightarrow> s)"

text \<open>\<open>case 'C'\<close>. \<open>x0\<close> and \<open>y0\<close> are \<open>basex + offx + HPGLX\<close> and \<open>basey + offy + HPGLY\<close>,
  with \<open>HPGLX = HPGLY = 0\<close>.\<close>

definition cmd_C :: "int \<Rightarrow> int \<Rightarrow> vstate \<Rightarrow> vstate" where
  "cmd_C x0 y0 s =
     (if \<not> newline s \<and> \<not> up s \<and> (lx s \<noteq> sx s \<or> ly s \<noteq> sy s)
      then vput ('','' @ fmt_d (x0 + sx s) @ '','' @ fmt_d (y0 + sy s)) s
      else s)"

text \<open>
  \<open>case 'P'\<close>, the block under \<open>if (vector_speed && vector_speed < 100)\<close>: the values of
  \<open>epower\<close>, \<open>espeed\<close> and \<open>efreq\<close> that are printed. \<open>x\<close> is the requested power and
  \<open>epower\<close> comes in as \<open>(power * vector_power + 50) / 100\<close>. The divisors \<open>x\<close> and
  \<open>espeed\<close> are not zero where they are used; \<open>500000 / efreq\<close> with a frequency of zero
  stops the program, which is \<open>None\<close>.
\<close>

definition compensate :: "config \<Rightarrow> int \<Rightarrow> int \<Rightarrow> (int \<times> int \<times> int) option" where
  "compensate c x epower =
     (let espeed = vector_speed c; efreq = vector_freq c in
      if epower \<noteq> 0 \<and> x < 100 then
        (if efreq = 0 then None
         else
           (let r = cdiv 10000 x;
                q = cdiv 10000 espeed;
                r = (if q < r then q else r);
                q = cdiv 500000 efreq;
                r = (if q < r then q else r);
                epower = cdiv (50 + epower * r) 100;
                espeed = cdiv (50 + espeed * r) 100;
                efreq = cdiv (50 + espeed * r) 100
            in Some (epower, espeed, efreq)))
      else Some (epower, espeed, efreq))"

definition cmd_P :: "config \<Rightarrow> string \<Rightarrow> vstate \<Rightarrow> vstate option" where
  "cmd_P c args s =
     (case sscanf_d args of
        None \<Rightarrow> Some s
      | Some x \<Rightarrow>
          if x = power s then Some s
          else
            (let s1 = s\<lparr>power := x, started := True\<rparr>;
                 s2 = (if \<not> up s1 then vput '';PU'' s1 else s1)\<lparr>up := True\<rparr>;
                 epower = cdiv (x * vector_power c + 50) 100
             in if vector_speed c \<noteq> 0 \<and> vector_speed c < 100 then
                  (case compensate c x epower of
                     None \<Rightarrow> None
                   | Some (epower', espeed, efreq) \<Rightarrow>
                       Some (vput ('';YP'' @ fmt_0d 3 epower' @ '';'')
                               (vput ('';ZS'' @ fmt_0d 3 espeed @ '';XR'' @ fmt_0d 4 efreq @ '';'')
                                  s2)))
                else Some (vput ('';YP'' @ fmt_0d 3 epower @ '';'') s2)))"

text \<open>
  \<open>case 'L'\<close>. After the \<open>sscanf\<close> the code copies \<open>x\<close> and \<open>y\<close> to \<open>lx\<close> and \<open>ly\<close> whether or
  not they were stored; a variable that was not holds an unspecified value, which the
  model takes from \<open>indet\<close>.
\<close>

definition cmd_L :: "int \<Rightarrow> int \<Rightarrow> int \<times> int \<Rightarrow> string \<Rightarrow> vstate \<Rightarrow> vstate" where
  "cmd_L x0 y0 indet args s =
     (let s1 = s\<lparr>started := True\<rparr>;
          s2 = (if newline s1
                then (vput (''PU'' @ fmt_d (x0 + sx s1) @ '','' @ fmt_d (y0 + sy s1))
                        (if \<not> up s1 then vput '';'' s1 else s1))\<lparr>up := True, newline := False\<rparr>
                else s1);
          s3 = (if up s2 then vput '';PD'' s2 else vput '','' s2)\<lparr>up := False\<rparr>;
          conv = sscanf_d_d args;
          s4 = (case conv of
                  (Some y, Some x) \<Rightarrow> vput (fmt_d (x0 + x) @ '','' @ fmt_d (y0 + y)) s3
                | _ \<Rightarrow> s3)
      in s4\<lparr>lx := (case snd conv of Some x \<Rightarrow> x | None \<Rightarrow> fst indet),
             ly := (case fst conv of Some y \<Rightarrow> y | None \<Rightarrow> snd indet)\<rparr>)"

text \<open>The body of the \<open>while (fgets ...)\<close> loop for the line \<open>ln\<close>, up to the test for
  \<open>'X'\<close>.\<close>

definition vector_line ::
  "config \<Rightarrow> int \<Rightarrow> int \<Rightarrow> int \<times> int \<Rightarrow> string \<Rightarrow> vstate \<Rightarrow> vstate option" where
  "vector_line c x0 y0 indet ln s =
     (if isalpha (first_char ln) then
        (if first_char ln = CHR ''M'' then Some (cmd_M (cstring (tl ln)) (preamble c s))
         else if first_char ln = CHR ''C'' then Some (cmd_C x0 y0 (preamble c s))
         else if first_char ln = CHR ''P'' then cmd_P c (cstring (tl ln)) (preamble c s)
         else if first_char ln = CHR ''L'' then
           Some (cmd_L x0 y0 indet (cstring (tl ln)) (preamble c s))
         else Some (preamble c s))
      else Some s)"

text \<open>\<open>while (fgets(...)) { ...; if (*buf == 'X') break; }\<close> over the rest of the file.\<close>

function vector_read ::
  "config \<Rightarrow> int \<Rightarrow> int \<Rightarrow> (nat \<Rightarrow> int \<times> int) \<Rightarrow> string \<Rightarrow> vstate \<Rightarrow> vstate option" where
  "vector_read c x0 y0 indet rest s =
     (case fgets sizeof_buf rest of
        None \<Rightarrow> Some s
      | Some (ln, rest') \<Rightarrow>
          (case vector_line c x0 y0 (indet (nread s)) ln (s\<lparr>nread := Suc (nread s)\<rparr>) of
             None \<Rightarrow> None
           | Some s' \<Rightarrow>
               if isalpha (first_char ln) \<and> first_char ln = CHR ''X'' then Some s'
               else vector_read c x0 y0 indet rest' s'))"
  by pat_completeness auto
termination
proof (relation "measure (\<lambda>(c, x0, y0, indet, rest, s). length rest)")
  show "wf (measure (\<lambda>(c, x0, y0, indet, rest, s). length rest))" by simp
next
  fix c :: config and x0 y0 :: int and indet :: "nat \<Rightarrow> int \<times> int"
    and rest ln rest' :: string and s s' :: vstate and x2 :: "string \<times> string"
  assume got: "fgets sizeof_buf rest = Some x2" and x2: "(ln, rest') = x2"
  have shorter: "length (snd (fgets_take k t)) \<le> length t" for k t
    by (induction k t rule: fgets_take.induct) (auto split: prod.splits)
  from got x2 have ne: "rest \<noteq> []" and parts: "fgets_take (sizeof_buf - 1) rest = (ln, rest')"
    by (auto simp: fgets_def split: if_splits)
  from ne obtain ch cs where rest: "rest = ch # cs" by (cases rest) auto
  have "length rest' < length rest"
  proof (cases "ch = CHR 0x0A")
    case True
    with parts rest show ?thesis by (simp add: sizeof_buf_def)
  next
    case False
    with parts rest have "rest' = snd (fgets_take (sizeof_buf - 1 - 1) cs)"
      by (auto simp: sizeof_buf_def split: prod.splits)
    with shorter [of "sizeof_buf - 1 - 1" cs] rest show ?thesis by simp
  qed
  then show "((c, x0, y0, indet, rest', s'), (c, x0, y0, indet, rest, s))
               \<in> measure (\<lambda>(c, x0, y0, indet, rest, s). length rest)"
    by simp
qed

declare vector_read.simps [simp del]

subsection \<open>The tile loops and \<open>generate_vector\<close>\<close>

text \<open>
  \<open>for (offy = height * (y_repeat - 1); offy >= 0; offy -= height)\<close> around
  \<open>for (offx = width * (x_repeat - 1); offx >= 0; offx -= width)\<close>, each tile with
  \<open>passstart = 0\<close> and the file rewound. As in the raster encoder the loops do not end
  when the height or the width is zero or less.
\<close>

partial_function (option) vector_tiles_x ::
  "config \<Rightarrow> int \<Rightarrow> int \<Rightarrow> (nat \<Rightarrow> int \<times> int) \<Rightarrow> string \<Rightarrow> int \<Rightarrow> vstate \<Rightarrow> vstate option" where
  "vector_tiles_x c basex y0 indet file offx s =
     (if 0 \<le> offx then
        Option.bind (vector_read c (basex + offx) y0 indet file (s\<lparr>passstart := False\<rparr>))
          (\<lambda>s'. vector_tiles_x c basex y0 indet file (offx - width c) s')
      else Some s)"

partial_function (option) vector_tiles_y ::
  "config \<Rightarrow> int \<Rightarrow> int \<Rightarrow> (nat \<Rightarrow> int \<times> int) \<Rightarrow> string \<Rightarrow> int \<Rightarrow> vstate \<Rightarrow> vstate option" where
  "vector_tiles_y c basex basey indet file offy s =
     (if 0 \<le> offy then
        Option.bind
          (vector_tiles_x c basex (basey + offy) indet file (width c * (x_repeat c - 1)) s)
          (\<lambda>s'. vector_tiles_y c basex basey indet file (offy - height c) s')
      else Some s)"

definition vector_start :: vstate where
  "vector_start =
     \<lparr> up = True, newline = True, started = False, passstart = False,
       sx = 0, sy = 0, lx = 0, ly = 0, power = 100, vout = [], nread = 0 \<rparr>"

definition vector_finish :: "vstate \<Rightarrow> vstate" where
  "vector_finish s =
     vput (ESC # ''%1BPU'')
       (if started s then vput (ESC # ''%0B'') (if \<not> up s then vput '';'' s else s) else s)"

text \<open>\<open>generate_vector\<close> returns \<open>true\<close> whenever it returns; the result is its return value
  and the bytes it wrote.\<close>

definition generate_vector ::
  "(nat \<Rightarrow> int \<times> int) \<Rightarrow> config \<Rightarrow> string \<Rightarrow> (bool \<times> byte list) option" where
  "generate_vector indet c file =
     map_option (\<lambda>s. (True, vout (vector_finish s)))
       (vector_tiles_y c (base_origin (x_center c) (width c) (resolution c))
          (base_origin (y_center c) (height c) (resolution c)) indet file
          (height c * (y_repeat c - 1)) vector_start)"

section \<open>The job composer\<close>

definition job_header :: "config \<Rightarrow> byte list" where
  "job_header c =
     bytes_of (ESC # ''%-12345X@PJL JOB NAME='' @ job_title c @ [CR, LF]) @
     bytes_of (ESC # ''E@PJL ENTER LANGUAGE=PCL'' @ [CR, LF])"

definition page_setup :: "config \<Rightarrow> byte list" where
  "page_setup c =
     bytes_of (ESC # ''&y'' @ fmt_d (focus c) @ ''A'') @
     bytes_of (ESC # ''&l0U'') @
     bytes_of (ESC # ''&l0Z'') @
     bytes_of (ESC # ''&u'' @ fmt_d (resolution c) @ ''D'') @
     bytes_of (ESC # ''*p0X'') @
     bytes_of (ESC # ''*p0Y'') @
     bytes_of (ESC # ''*t'' @ fmt_d (resolution c) @ ''R'')"

definition raster_intro :: "byte list" where
  "raster_intro = bytes_of (ESC # ''&y0C'')"

definition vector_page_reset :: "config \<Rightarrow> byte list" where
  "vector_page_reset c =
     bytes_of (ESC # ''E@PJL ENTER LANGUAGE=PCL'' @ [CR, LF]) @
     bytes_of (ESC # ''*r0F'') @
     bytes_of (ESC # ''*r'' @ fmt_d (height c * y_repeat c) @ ''T'') @
     bytes_of (ESC # ''*r'' @ fmt_d (width c * x_repeat c) @ ''S'') @
     bytes_of (ESC # ''*r1A'') @
     bytes_of (ESC # ''*rC'') @
     bytes_of (ESC # ''%1B'')"

definition job_footer :: "byte list" where
  "job_footer =
     bytes_of [ESC, CHR ''E''] @
     bytes_of (ESC # ''%-12345X'') @
     bytes_of (''@PJL EOJ '' @ [CR, LF])"

text \<open>
  The two optional parts of \<open>generate_pjl\<close>. The raster part is what
  \<open>if (raster_power && raster_mode != 'n') { ...; generate_raster(pjl_file, bitmap_file); }\<close>
  writes: the value \<open>generate_raster\<close> returns is dropped there, as in the source. The
  vector part sees the \<open>width\<close> and \<open>height\<close> that the raster part has left.
\<close>

definition raster_part ::
  "(nat \<Rightarrow> byte) \<Rightarrow> config \<Rightarrow> world \<Rightarrow> (byte list \<times> config \<times> world) option" where
  "raster_part header c w =
     (if raster_power c \<noteq> 0 \<and> raster_mode c \<noteq> CHR ''n''
      then map_option (\<lambda>r. case r of (ok, bs, c', w') \<Rightarrow> (raster_intro @ bs, c', w'))
             (generate_raster header c w)
      else Some ([], c, w))"

definition vector_part :: "(nat \<Rightarrow> int \<times> int) \<Rightarrow> config \<Rightarrow> string \<Rightarrow> byte list option" where
  "vector_part indet c file =
     (if vector_power c \<noteq> 0
      then map_option (\<lambda>r. case r of (ok, bs) \<Rightarrow> vector_page_reset c @ bs)
             (generate_vector indet c file)
      else Some [])"

text \<open>
  \<open>generate_pjl\<close>: its return value, the bytes of the job file, and the world. \<open>header\<close>
  is the content of the uninitialised array \<open>bitmap_header\<close> on entry to
  \<open>generate_raster\<close>, and \<open>indet\<close> gives the unspecified values of the vector encoder.
\<close>

text \<open>\<open>for (i = 0; i < 4096; i++) fputc(0, pjl_file)\<close>.\<close>

definition job_padding :: "byte list" where
  "job_padding = replicate 4096 0"

definition generate_pjl ::
  "(nat \<Rightarrow> byte) \<Rightarrow> (nat \<Rightarrow> int \<times> int) \<Rightarrow> config \<Rightarrow> string \<Rightarrow> world \<Rightarrow>
   (bool \<times> byte list \<times> world) option" where
  "generate_pjl header indet c vector_file w =
     (case raster_part header c w of
        None \<Rightarrow> None
      | Some (rs, c', w') \<Rightarrow>
          (case vector_part indet c' vector_file of
             None \<Rightarrow> None
           | Some vs \<Rightarrow>
               Some (True,
                     job_header c @ page_setup c @ rs @ vs @ job_footer @ job_padding,
                     w')))"

section \<open>Printer delivery\<close>

text \<open>
  The network as the program meets it. An attempt is one round of the loop of
  \<open>printer_connect\<close>: the result of \<open>getaddrinfo\<close> and, for each address it returned, the
  text of the address that is printed (if \<open>ai_addr\<close> is set), the result of \<open>socket\<close> and
  whether \<open>connect\<close> succeeded. \<open>acks k\<close> is what the \<open>k\<close>-th \<open>read\<close> on the connected socket
  stores into \<open>lpdres\<close> (\<open>None\<close>: nothing, the read failed or met the end of the stream),
  and \<open>lpdres_init\<close> is the unspecified value the uninitialised \<open>lpdres\<close> starts with.
  Timing (the \<open>alarm\<close> calls) is outside the model.
\<close>

record candidate =
  shown_address :: "string option"
  socket_result :: int
  connect_ok :: bool

record attempt =
  gai_error :: int
  candidates :: "candidate list"

record network =
  attempts :: "nat \<Rightarrow> attempt"
  acks :: "nat \<Rightarrow> byte option"
  lpdres_init :: byte
  local_hostname :: string
  fstat_ok :: bool

text \<open>The loop over the addresses: the socket descriptor it leaves and what it printed.\<close>

fun try_candidates :: "int \<Rightarrow> candidate list \<Rightarrow> int \<times> message list" where
  "try_candidates sd [] = (sd, [])"
| "try_candidates sd (a # as) =
     (let said = (case shown_address a of
                    None \<Rightarrow> []
                  | Some t \<Rightarrow> [Printed (''trying to connect to '' @ t @ [LF])])
      in if 0 \<le> socket_result a then
           (if connect_ok a then (socket_result a, said)
            else (case try_candidates (- 1) as of (sd', ms) \<Rightarrow> (sd', said @ ms)))
         else (case try_candidates (socket_result a) as of (sd', ms) \<Rightarrow> (sd', said @ ms)))"

text \<open>
  \<open>for (i = 0; i < timeout; i++)\<close>: the final \<open>i\<close>, the socket descriptor, the number of
  \<open>sleep(1)\<close> calls and the messages.
\<close>

function connect_loop ::
  "network \<Rightarrow> int \<Rightarrow> int \<Rightarrow> int \<Rightarrow> int \<times> int \<times> nat \<times> message list" where
  "connect_loop net timeout i sd =
     (if i < timeout then
        (case (if gai_error (attempts net (nat i)) = 0
               then try_candidates sd (candidates (attempts net (nat i)))
               else (sd, [])) of
           (sd', ms) \<Rightarrow>
             if 0 \<le> sd' then (i, sd', 0, ms)
             else (case connect_loop net timeout (i + 1) sd' of
                     (i', sd'', sleeps, ms') \<Rightarrow> (i', sd'', Suc sleeps, ms @ ms')))
      else (i, sd, 0, []))"
  by pat_completeness auto
termination
  by (relation "measure (\<lambda>(net, timeout, i, sd). nat (timeout - i))") auto

declare connect_loop.simps [simp del]

definition printer_connect :: "network \<Rightarrow> string \<Rightarrow> int \<Rightarrow> int \<times> nat \<times> message list" where
  "printer_connect net host timeout =
     (case connect_loop net timeout 0 (- 1) of
        (i, sd, sleeps, ms) \<Rightarrow>
          if timeout \<le> i then (- 1, sleeps, ms @ [Printed (''Cannot connect to '' @ host @ [LF])])
          else (sd, sleeps, ms))"

definition PRINTER_MAX_WAIT :: int where "PRINTER_MAX_WAIT = 300"

text \<open>
  The state of one \<open>printer_send\<close>: the descriptor, the data of every \<open>write\<close> that
  reached the socket (a \<open>write\<close> on a negative descriptor fails and sends nothing; the
  program does not look at the result of any \<open>write\<close> or \<open>read\<close>), the number of \<open>read\<close>
  calls made, \<open>lpdres\<close>, the messages and the seconds slept.
\<close>

record session =
  descriptor :: int
  written :: "byte list list"
  reads :: nat
  lpdres :: byte
  said :: "message list"
  slept :: nat

definition sock_write :: "byte list \<Rightarrow> session \<Rightarrow> session" where
  "sock_write data ss = (if 0 \<le> descriptor ss then ss\<lparr>written := written ss @ [data]\<rparr> else ss)"

definition sock_read :: "network \<Rightarrow> session \<Rightarrow> session" where
  "sock_read net ss =
     (if 0 \<le> descriptor ss then
        ss\<lparr>reads := Suc (reads ss),
           lpdres := (case acks net (reads ss) of None \<Rightarrow> lpdres ss | Some b \<Rightarrow> b)\<rparr>
      else ss)"

definition bad_response :: "string \<Rightarrow> session \<Rightarrow> session" where
  "bad_response host ss =
     ss\<lparr>said := said ss @
        [Printed (''Bad response from '' @ host @ '', '' @ dec_nat (unat (lpdres ss)) @ [LF])]\<rparr>"

text \<open>\<open>while ((l = fread(buf, 1, sizeof (buf), pjl_file)) > 0) write(socket_descriptor, buf, l)\<close>:
  the job file in pieces of at most \<open>sizeof (buf)\<close> bytes.\<close>

function file_chunks :: "byte list \<Rightarrow> byte list list" where
  "file_chunks xs = (if xs = [] then [] else take sizeof_buf xs # file_chunks (drop sizeof_buf xs))"
  by pat_completeness auto
termination
  by (relation "measure length") (auto simp: sizeof_buf_def)

declare file_chunks.simps [simp del]

text \<open>
  \<open>printer_disconnect\<close>: closing a descriptor that is not valid is reported; the result
  is not used by \<open>printer_send\<close>.
\<close>

definition printer_disconnect :: "session \<Rightarrow> session" where
  "printer_disconnect ss =
     (if descriptor ss < 0
      then ss\<lparr>said := said ss @ [Perror ''Socket descriptor given was not valid.'']\<rparr>
      else ss)"

text \<open>
  \<open>printer_send\<close>. Every \<open>sprintf(buf + strlen(buf) + 1, ...)\<close> of the source writes just
  behind the terminator of the first string, \<open>"H<localhost>\n"\<close>, so each overwrites the one
  before: what is sent as the announcement is the last of them, and the control file
  that follows is the first string with its terminator.
\<close>

definition control_line :: "string \<Rightarrow> string" where
  "control_line localhost = ''H'' @ localhost @ [LF]"

definition queue_command :: "config \<Rightarrow> byte list" where
  "queue_command c = bytes_of (CHR 0x02 # queue c @ [LF])"

definition control_announce :: "config \<Rightarrow> string \<Rightarrow> byte list" where
  "control_announce c localhost =
     bytes_of (CHR 0x02 # fmt_d (int (length (control_line localhost))) @
               '' cfA'' @ job_name c @ localhost @ [LF])"

definition data_announce :: "config \<Rightarrow> string \<Rightarrow> nat \<Rightarrow> byte list" where
  "data_announce c localhost n =
     bytes_of (CHR 0x03 # dec_nat n @ '' dfA'' @ job_name c @ localhost @ [LF])"

definition send_data :: "network \<Rightarrow> config \<Rightarrow> string \<Rightarrow> string \<Rightarrow> byte list \<Rightarrow> session \<Rightarrow> bool \<times> session" where
  "send_data net c host localhost pjl_file ss =
     (if \<not> fstat_ok net then (False, ss\<lparr>said := said ss @ [Perror (control_line localhost)]\<rparr>)
      else
        (let s1 = ss\<lparr>said := said ss @
                    [Printed (''job '' @ [CHR 0x27] @ job_name c @ [CHR 0x27] @ '': size '' @
                              dec_nat (length pjl_file) @ [LF])]\<rparr>;
             s2 = sock_read net (sock_write (data_announce c localhost (length pjl_file)) s1)
         in if lpdres s2 \<noteq> 0 then (False, bad_response host s2)
            else (True, printer_disconnect (foldl (\<lambda>s ch. sock_write ch s) s2 (file_chunks pjl_file)))))"

definition send_control :: "network \<Rightarrow> config \<Rightarrow> string \<Rightarrow> string \<Rightarrow> byte list \<Rightarrow> session \<Rightarrow> bool \<times> session" where
  "send_control net c host localhost pjl_file ss =
     (let s1 = sock_read net (sock_write (control_announce c localhost) ss)
      in if lpdres s1 \<noteq> 0 then (False, bad_response host s1)
         else
           (let s2 = sock_read net (sock_write (bytes_of (control_line localhost @ [NUL])) s1)
            in if lpdres s2 \<noteq> 0 then (False, bad_response host s2)
               else send_data net c host localhost pjl_file s2))"

definition printer_send :: "network \<Rightarrow> config \<Rightarrow> string \<Rightarrow> byte list \<Rightarrow> bool \<times> session" where
  "printer_send net c host pjl_file =
     (let localhost = takeWhile (\<lambda>ch. ch \<noteq> CHR ''.'') (local_hostname net) in
      case printer_connect net host PRINTER_MAX_WAIT of
        (sd, sleeps, ms) \<Rightarrow>
          (let s0 = \<lparr> descriptor = sd, written = [], reads = 0, lpdres = lpdres_init net,
                      said = ms, slept = sleeps \<rparr>;
               s1 = sock_read net (sock_write (queue_command c) s0)
           in if lpdres s1 \<noteq> 0 then (False, bad_response host s1)
              else send_control net c host localhost pjl_file s1))"

section \<open>The main program, from the range checks on\<close>

text \<open>
  \<open>main\<close> after the options are read: \<open>range_checks\<close>, then (outside this model) the
  conversion of the input into the bitmap and the vector file, then \<open>generate_pjl\<close>, and
  \<open>printer_send\<close> only if \<open>generate_pjl\<close> returned \<open>true\<close>. The result is the exit status, the
  job file and, when delivery was tried, its session. \<open>c\<close> holds the globals as the option
  parser and the conversion leave them.
\<close>

definition main_job ::
  "network \<Rightarrow> (nat \<Rightarrow> byte) \<Rightarrow> (nat \<Rightarrow> int \<times> int) \<Rightarrow> string \<Rightarrow> config \<Rightarrow> byte list \<Rightarrow> string \<Rightarrow>
   (int \<times> byte list \<times> world \<times> session option) option" where
  "main_job net header indet host c bmp vector_file =
     (case generate_pjl header indet (range_checks c) vector_file
             \<lparr> bitmap = \<lparr> contents = bmp, offset = 0 \<rparr>, stderr = [] \<rparr> of
        None \<Rightarrow> None
      | Some (ok, job, w) \<Rightarrow>
          if \<not> ok then Some (1, job, w, None)
          else (case printer_send net (range_checks c) host job of
                  (sent, ss) \<Rightarrow> Some (if sent then 0 else 1, job, w, Some ss)))"

section \<open>The specification's wording, for comparison\<close>

text \<open>
  The colour classification as the specification words it: a channel is saturated when
  its value exceeds 240, the mask has one bit per saturated channel, and the luminance
  is the average of the channels that are not saturated.
\<close>

definition spec_saturated :: "byte \<Rightarrow> bool" where
  "spec_saturated f = (240 < uint f)"

definition spec_mask :: "byte \<Rightarrow> byte \<Rightarrow> byte \<Rightarrow> int" where
  "spec_mask f0 f1 f2 =
     (if spec_saturated f0 then 1 else 0) + (if spec_saturated f1 then 2 else 0) +
     (if spec_saturated f2 then 4 else 0)"

definition spec_luminance :: "byte \<Rightarrow> byte \<Rightarrow> byte \<Rightarrow> int" where
  "spec_luminance f0 f1 f2 =
     ((if spec_saturated f0 then 0 else uint f0) + (if spec_saturated f1 then 0 else uint f1) +
      (if spec_saturated f2 then 0 else uint f2)) div
     ((if spec_saturated f0 then 0 else 1) + (if spec_saturated f1 then 0 else 1) +
      (if spec_saturated f2 then 0 else 1))"

text \<open>
  The separation as the specification words it, with the passes numbered as the program
  numbers them: in the pass whose number is its mask a pixel contributes its inverted
  luminance, in every other pass it is blank, and a pixel with all three channels
  saturated is blank in every pass. A blank pixel is the byte 0, the inverse of 255.
  \<open>passes_in_order\<close> runs the passes of a list one after the other, each on the world
  the one before has left, and stops at the first that fails.
\<close>

definition spec_separated :: "int \<Rightarrow> byte \<Rightarrow> byte \<Rightarrow> byte \<Rightarrow> byte" where
  "spec_separated pass f0 f1 f2 =
     (if spec_mask f0 f1 f2 \<noteq> 7 \<and> pass = spec_mask f0 f1 f2
      then word_of_int (255 - spec_luminance f0 f1 f2) else 0)"

fun passes_in_order ::
  "(int \<Rightarrow> world \<Rightarrow> (bool \<times> byte list \<times> world) option) \<Rightarrow> int list \<Rightarrow> world \<Rightarrow>
   (bool \<times> byte list \<times> world) option" where
  "passes_in_order one_pass [] w = Some (True, [], w)"
| "passes_in_order one_pass (p # ps) w =
     (case one_pass p w of
        None \<Rightarrow> None
      | Some (ok, bs, w') \<Rightarrow>
          if ok then map_option (written_before bs) (passes_in_order one_pass ps w')
          else Some (False, bs, w'))"

text \<open>
  The energy compensation as the specification words it: the scale factor is the least
  of \<open>10000 / requested_power\<close>, \<open>10000 / configured_speed\<close> and
  \<open>500000 / configured_frequency\<close>, and power, speed and frequency are each rescaled by
  \<open>r / 100\<close> with \<open>+50\<close> rounding.
\<close>

definition spec_compensate :: "config \<Rightarrow> int \<Rightarrow> int \<Rightarrow> int \<times> int \<times> int" where
  "spec_compensate c x epower =
     (let r = min (cdiv 10000 x) (min (cdiv 10000 (vector_speed c)) (cdiv 500000 (vector_freq c)))
      in (cdiv (50 + epower * r) 100,
          cdiv (50 + vector_speed c * r) 100,
          cdiv (50 + vector_freq c * r) 100))"

section \<open>Concrete inputs\<close>

text \<open>
  For the runs on concrete inputs: one choice of the values the program leaves
  unspecified (the content of the uninitialised header array, and the values of \<open>x\<close> and
  \<open>y\<close> after a failed \<open>sscanf\<close>), and a helper that finds the first place where a byte
  sequence occurs in the output.
\<close>

definition no_header :: "nat \<Rightarrow> byte" where
  "no_header i = 0"

definition no_indet :: "nat \<Rightarrow> int \<times> int" where
  "no_indet k = (0, 0)"

fun find_bytes :: "byte list \<Rightarrow> byte list \<Rightarrow> nat option" where
  "find_bytes pat [] = (if pat = [] then Some 0 else None)"
| "find_bytes pat (x # xs) =
     (if take (length pat) (x # xs) = pat then Some 0 else map_option Suc (find_bytes pat xs))"

text \<open>
  Three printers: one that accepts the connection and acknowledges every step with
  zero, one that answers the queue command with the code 1, and one that is never
  reachable, met with an \<open>lpdres\<close> that happens to hold zero.
\<close>

definition listening :: candidate where
  "listening = \<lparr> shown_address = Some ''192.168.1.4:515'', socket_result = 3, connect_ok = True \<rparr>"

definition good_printer :: network where
  "good_printer =
     \<lparr> attempts = (\<lambda>k. \<lparr> gai_error = 0, candidates = [listening] \<rparr>),
       acks = (\<lambda>k. Some 0), lpdres_init = 0xAA,
       local_hostname = ''bench.example.org'', fstat_ok = True \<rparr>"

definition refusing_printer :: network where
  "refusing_printer = good_printer\<lparr>acks := (\<lambda>k. Some 1)\<rparr>"

definition dead_printer :: network where
  "dead_printer =
     good_printer\<lparr>attempts := (\<lambda>k. \<lparr> gai_error = 0,
                                       candidates = [listening\<lparr>connect_ok := False\<rparr>] \<rparr>),
                  lpdres_init := 0\<rparr>"


text \<open>
  Two bitmap files. Both start with a 54-byte header that gives the data offset 54
  (bytes 10 to 13), the width 8 (bytes 18 to 21) and the height 1 (bytes 22 to 25).
  \<open>tiny_bitmap\<close> has the one padded row of four bytes; \<open>short_bitmap\<close> ends after the
  header.
\<close>

definition header_8x1 :: "byte list" where
  "header_8x1 =
     [0x42, 0x4D] @ replicate 8 0 @ [54, 0, 0, 0] @ [40, 0, 0, 0] @ [8, 0, 0, 0] @ [1, 0, 0, 0] @
     replicate 28 0"

definition short_bitmap :: "byte list" where
  "short_bitmap = header_8x1"


text \<open>
  A colour bitmap of one column and three rows, with the data offset 54. The rows come in
  the file from the highest \<open>y\<close> down: at \<open>y = 2\<close> a pixel with all three channels
  saturated, at \<open>y = 1\<close> one with only the first channel saturated (mask 1), at \<open>y = 0\<close>
  one with no channel saturated (mask 0). Each row is padded to four bytes.
\<close>

definition header_1x3 :: "byte list" where
  "header_1x3 =
     [0x42, 0x4D] @ replicate 8 0 @ [54, 0, 0, 0] @ [40, 0, 0, 0] @ [1, 0, 0, 0] @ [3, 0, 0, 0] @
     replicate 28 0"

definition three_pixels :: "byte list" where
  "three_pixels = header_1x3 @ [250, 250, 250, 0] @ [250, 20, 40, 0] @ [10, 20, 30, 0]"

definition colour_config :: config where
  "colour_config = default_config\<lparr>raster_mode := CHR ''c''\<rparr>"
section \<open>Theorems\<close>

subsection \<open>Range checks\<close>

lemma check_raster_power_eq:
  "check_raster_power c = c\<lparr>raster_power := max 0 (min 100 (raster_power c))\<rparr>"
  by (simp add: check_raster_power_def max_def min_def)

lemma check_raster_speed_eq:
  "check_raster_speed c = c\<lparr>raster_speed := max 1 (min 100 (raster_speed c))\<rparr>"
  by (simp add: check_raster_speed_def max_def min_def)

lemma check_resolution_eq:
  "check_resolution c = c\<lparr>resolution := max 75 (min 1200 (resolution c))\<rparr>"
  by (simp add: check_resolution_def max_def min_def)

lemma check_screen_size_eq:
  "check_screen_size c = c\<lparr>screen_size := max 1 (screen_size c)\<rparr>"
  by (simp add: check_screen_size_def max_def)

lemma check_vector_freq_eq:
  "check_vector_freq c = c\<lparr>vector_freq := max 10 (min 5000 (vector_freq c))\<rparr>"
  by (simp add: check_vector_freq_def max_def min_def)

lemma check_vector_power_eq:
  "check_vector_power c = c\<lparr>vector_power := max 0 (min 100 (vector_power c))\<rparr>"
  by (simp add: check_vector_power_def max_def min_def)

lemma check_vector_speed_eq:
  "check_vector_speed c = c\<lparr>vector_speed := max 1 (min 100 (vector_speed c))\<rparr>"
  by (simp add: check_vector_speed_def max_def min_def)

lemmas check_eqs =
  check_raster_power_eq check_raster_speed_eq check_resolution_eq check_screen_size_eq
  check_vector_freq_eq check_vector_power_eq check_vector_speed_eq

lemma range_checks_fields:
  "range_checks c =
     c\<lparr> raster_power := max 0 (min 100 (raster_power c)),
        raster_speed := max 1 (min 100 (raster_speed c)),
        resolution := max 75 (min 1200 (resolution c)),
        screen_size := max 1 (screen_size c),
        vector_freq := max 10 (min 5000 (vector_freq c)),
        vector_power := max 0 (min 100 (vector_power c)),
        vector_speed := max 1 (min 100 (vector_speed c)) \<rparr>"
  by (simp add: range_checks_def check_eqs)

lemma range_checks_in_bounds: "in_bounds (range_checks c)"
  by (simp add: range_checks_fields in_bounds_def)

lemma range_checks_noop: "in_bounds c \<Longrightarrow> range_checks c = c"
  by (simp add: range_checks_fields in_bounds_def)

lemma range_checks_idem: "range_checks (range_checks c) = range_checks c"
  by (rule range_checks_noop) (rule range_checks_in_bounds)

text \<open>
  Claim C4. Before any encoding output is produced every bounded field is clamped to its
  nearest bound: raster power into 0..100, raster speed into 1..100, resolution into
  75..1200, screen size to at least 1, vector frequency into 10..5000, vector power into
  0..100, vector speed into 1..100. Clamping a value in range changes nothing, and no
  value is an error: \<open>range_checks\<close> is a total function on configurations, and the job
  \<open>main\<close> produces is that of the clamped configuration.
\<close>

theorem range_checks_clamps:
  "range_checks c =
     c\<lparr> raster_power := max 0 (min 100 (raster_power c)),
        raster_speed := max 1 (min 100 (raster_speed c)),
        resolution := max 75 (min 1200 (resolution c)),
        screen_size := max 1 (screen_size c),
        vector_freq := max 10 (min 5000 (vector_freq c)),
        vector_power := max 0 (min 100 (vector_power c)),
        vector_speed := max 1 (min 100 (vector_speed c)) \<rparr> \<and>
   in_bounds (range_checks c) \<and>
   (in_bounds c \<longrightarrow> range_checks c = c) \<and>
   range_checks (range_checks c) = range_checks c \<and>
   main_job net header indet host c bmp vector_file =
     main_job net header indet host (range_checks c) bmp vector_file"
proof (intro conjI impI)
  show "main_job net header indet host c bmp vector_file =
          main_job net header indet host (range_checks c) bmp vector_file"
    unfolding main_job_def range_checks_idem by (rule refl)
qed (rule range_checks_fields range_checks_in_bounds range_checks_noop range_checks_idem
      | assumption)+

theorem range_checks_clamps_witness:
  "in_bounds default_config \<and> range_checks default_config = default_config \<and>
   raster_power (range_checks (default_config\<lparr>raster_power := 150\<rparr>)) = 100 \<and>
   resolution (range_checks (default_config\<lparr>resolution := 50\<rparr>)) = 75 \<and>
   vector_freq (range_checks (default_config\<lparr>vector_freq := 6000\<rparr>)) = 5000"
proof -
  have b: "in_bounds default_config"
    by (simp add: in_bounds_def default_config_def)
  from range_checks_clamps [of default_config] b
  have "range_checks default_config = default_config" by blast
  moreover have "raster_power (range_checks (default_config\<lparr>raster_power := 150\<rparr>)) = 100"
    by (simp add: range_checks_fields)
  moreover have "resolution (range_checks (default_config\<lparr>resolution := 50\<rparr>)) = 75"
    by (simp add: range_checks_fields)
  moreover have "vector_freq (range_checks (default_config\<lparr>vector_freq := 6000\<rparr>)) = 5000"
    by (simp add: range_checks_fields)
  ultimately show ?thesis using b by simp
qed

subsection \<open>Division and formatting\<close>

lemma cdiv_nonneg: "0 \<le> a \<Longrightarrow> 0 < b \<Longrightarrow> cdiv a b = a div b"
  by (cases "a = 0") (simp_all add: cdiv_def sgn_if)

lemma cdiv_0: "cdiv 0 b = 0"
  by (simp add: cdiv_def)

lemma replicate_2: "replicate 2 x = [x, x]"
  by (simp add: numeral_2_eq_2)

lemma replicate_3: "replicate 3 x = [x, x, x]"
  by (simp add: numeral_3_eq_3)

lemmas fmt_eval = fmt_d_def fmt_0d_def zero_pad_def dec_nat.simps digit_char_def replicate_2 replicate_3

lemma fmt_d_0: "fmt_d 0 = ''0''"
  by (simp add: fmt_eval)

lemma fmt_d_100: "fmt_d 100 = ''100''"
  by (simp add: fmt_eval)

lemma fmt_0d_3_100: "fmt_0d 3 100 = ''100''"
  by (simp add: fmt_eval)

text \<open>A number that fits an \<open>int\<close> of 32 bits is stored as it is.\<close>

lemma stored_int_small: "- (2 ^ 31) \<le> v \<Longrightarrow> v < 2 ^ 31 \<Longrightarrow> stored_int v = v"
  unfolding stored_int_def
  by (simp add: sint_sbintrunc' signed_take_bit_int_eq_self min_def max_def)

text \<open>A number beyond the \<open>int\<close> keeps its low 32 bits, and one beyond the \<open>long\<close> is
  stored as the low 32 bits of the bound.\<close>

lemma stored_int_wraps: "stored_int 4294967297 = 1" "stored_int 99999999999999999999 = - 1"
  unfolding stored_int_def by simp_all

subsection \<open>Run-length packing\<close>

lemma run_length_le_128: "run_length xs \<le> 128"
  unfolding run_length_def
  by (rule order_trans [OF length_takeWhile_le]) simp

lemma run_length_le_length: "run_length xs \<le> length xs"
  unfolding run_length_def
  by (rule order_trans [OF length_takeWhile_le]) simp

lemma take_run_length: "take (run_length xs) xs = replicate (run_length xs) (hd xs)"
proof -
  let ?ys = "takeWhile (\<lambda>b. b = hd xs) (take 128 xs)"
  have "?ys = take (length ?ys) (take 128 xs)"
    by (rule takeWhile_eq_take)
  also have "\<dots> = take (run_length xs) xs"
    using run_length_le_128 [of xs] by (simp add: run_length_def min_def)
  finally have eq: "take (run_length xs) xs = ?ys" by simp
  have "\<forall>b \<in> set ?ys. b = hd xs"
    by (auto dest: set_takeWhileD)
  then have "?ys = replicate (length ?ys) (hd xs)"
    by (simp add: replicate_length_same)
  with eq show ?thesis by (simp add: run_length_def)
qed

lemma literal_length_le: "literal_length k xs \<le> k"
  by (induction k xs rule: literal_length.induct) auto

lemma literal_length_le_length: "literal_length k xs \<le> length xs"
  by (induction k xs rule: literal_length.induct) auto

lemma literal_length_pos:
  "xs \<noteq> [] \<Longrightarrow> \<not> 2 \<le> run_length xs \<Longrightarrow> 0 < literal_length 127 xs"
proof (cases xs)
  case Nil
  assume "xs \<noteq> []"
  with Nil show ?thesis by simp
next
  case (Cons x ys)
  assume short: "\<not> 2 \<le> run_length xs"
  show ?thesis
  proof (cases ys)
    case Nil
    with Cons show ?thesis by simp
  next
    case (Cons y zs)
    with short \<open>xs = x # ys\<close> have "x \<noteq> y"
      by (auto simp: run_length_def)
    with Cons \<open>xs = x # ys\<close> show ?thesis by simp
  qed
qed

lemma unat_byte_of_nat: "m < 256 \<Longrightarrow> unat (of_nat m :: byte) = m"
  by (simp only: unat_of_nat) simp

lemma unat_run_control:
  "2 \<le> k \<Longrightarrow> k \<le> 128 \<Longrightarrow> unat (of_nat (257 - k) :: byte) = 257 - k"
  by (rule unat_byte_of_nat) simp

lemma unat_literal_control:
  "k \<le> 127 \<Longrightarrow> unat (of_nat (k - 1) :: byte) = k - 1"
  by (rule unat_byte_of_nat) simp

lemma padding_step:
  "r mod 8 \<noteq> 0 \<Longrightarrow> (8 - r mod 8) mod 8 = Suc ((8 - (r + 1) mod 8) mod 8)" for r :: nat
proof -
  assume nz: "r mod 8 \<noteq> 0"
  have lt: "r mod 8 < 8" by simp
  show ?thesis
  proof (cases "Suc (r mod 8) = 8")
    case True
    then show ?thesis by (simp add: mod_Suc)
  next
    case False
    with nz lt show ?thesis by (simp add: mod_Suc)
  qed
qed

lemma padding_replicate: "padding r = replicate ((8 - r mod 8) mod 8) 0x80"
proof (induction r rule: padding.induct)
  case (1 r)
  show ?case
  proof (cases "r mod 8 = 0")
    case True
    then show ?thesis by (simp add: padding.simps [of r])
  next
    case False
    with 1 have "padding (r + 1) = replicate ((8 - (r + 1) mod 8) mod 8) 0x80"
      by simp
    with False show ?thesis
      by (simp add: padding.simps [of r] padding_step [OF False])
  qed
qed

lemma length_padded: "(n + length (padding n)) mod 8 = 0"
proof -
  define q x where "q = n div 8" and "x = n mod 8"
  have n: "n = 8 * q + x" by (simp add: q_def x_def)
  have lt: "x < 8" by (simp add: x_def)
  have "(8 * q + x + (8 - x) mod 8) mod 8 = 0"
  proof (cases "x = 0")
    case True
    then show ?thesis by simp
  next
    case False
    with lt have "8 * q + x + (8 - x) mod 8 = 8 * (q + 1)" by simp
    then show ?thesis by (simp only: mod_mult_self1_is_0)
  qed
  then have "(n + (8 - x) mod 8) mod 8 = 0" by (simp only: n [symmetric])
  then show ?thesis by (simp only: x_def padding_replicate length_replicate)
qed

lemma spec_unpack_filler: "spec_unpack (replicate m 0x80 @ zs) = spec_unpack zs"
  by (induction m) simp_all

lemma spec_unpack_run:
  "128 < unat c \<Longrightarrow>
   spec_unpack (c # b # rest) =
     map_option (\<lambda>ys. replicate (257 - unat c) b @ ys) (spec_unpack rest)"
  by simp

lemma spec_unpack_literal:
  "unat c < 128 \<Longrightarrow> unat c + 1 \<le> length rest \<Longrightarrow>
   spec_unpack (c # rest) =
     map_option (\<lambda>ys. take (unat c + 1) rest @ ys) (spec_unpack (drop (unat c + 1) rest))"
  by simp

lemma spec_unpack_pack:
  "pack_from n xs = Some ps \<Longrightarrow>
   spec_unpack (ps @ zs) = map_option (\<lambda>ys. xs @ ys) (spec_unpack zs)"
proof (induction n xs arbitrary: ps rule: pack_from.induct)
  case (1 n xs)
  show ?case
  proof (cases "xs = []")
    case True
    with "1.prems" show ?thesis
      by (simp add: pack_from.simps [of n "[]"] option.map_ident)
  next
    case ne: False
    show ?thesis
    proof (cases "2 \<le> run_length xs")
      case True
      let ?k = "run_length xs"
      define c :: byte where "c = of_nat (257 - ?k)"
      from "1.prems" ne True have fits: "n + 2 \<le> sizeof_pack"
        by (simp add: pack_from.simps [of n xs] split: if_splits)
      from "1.prems" ne True fits obtain ps' where
        ps: "ps = c # hd xs # ps'" and
        rest: "pack_from (n + 2) (drop ?k xs) = Some ps'"
        by (auto simp: pack_from.simps [of n xs] c_def)
      have ih: "spec_unpack (ps' @ zs) = map_option (\<lambda>ys. drop ?k xs @ ys) (spec_unpack zs)"
        by (rule "1.IH"(1) [OF ne True fits rest])
      have ctl: "unat c = 257 - ?k"
        unfolding c_def using True run_length_le_128 [of xs] by (rule unat_run_control)
      have big: "128 < unat c"
        using ctl run_length_le_128 [of xs] by simp
      have k257: "257 - unat c = ?k"
        using ctl run_length_le_128 [of xs] by simp
      have "replicate ?k (hd xs) @ drop ?k xs = xs"
        using take_run_length [of xs] append_take_drop_id [of ?k xs] by simp
      then have whole: "\<And>ys. replicate ?k (hd xs) @ drop ?k xs @ ys = xs @ ys"
        by (metis append_assoc)
      have "spec_unpack (ps @ zs) = spec_unpack (c # hd xs # (ps' @ zs))"
        by (simp add: ps)
      also have "\<dots> = map_option (\<lambda>ys. replicate ?k (hd xs) @ ys) (spec_unpack (ps' @ zs))"
        by (simp only: spec_unpack_run [OF big] k257)
      also have "\<dots> = map_option (\<lambda>ys. xs @ ys) (spec_unpack zs)"
        by (simp add: ih option.map_comp comp_def whole)
      finally show ?thesis .
    next
      case False
      let ?j = "literal_length 127 xs"
      define c :: byte where "c = of_nat (?j - 1)"
      from "1.prems" ne False have fits: "n + 1 + ?j \<le> sizeof_pack"
        by (simp add: pack_from.simps [of n xs] split: if_splits)
      from "1.prems" ne False fits obtain ps' where
        ps: "ps = c # take ?j xs @ ps'" and
        rest: "pack_from (n + 1 + ?j) (drop ?j xs) = Some ps'"
        by (auto simp: pack_from.simps [of n xs] c_def)
      have ih: "spec_unpack (ps' @ zs) = map_option (\<lambda>ys. drop ?j xs @ ys) (spec_unpack zs)"
        by (rule "1.IH"(2) [OF ne False fits rest])
      have pos: "0 < ?j" using ne False by (rule literal_length_pos)
      have le: "?j \<le> 127" by (rule literal_length_le)
      have len: "?j \<le> length xs" by (rule literal_length_le_length)
      have ctl: "unat c = ?j - 1"
        unfolding c_def using le by (rule unat_literal_control)
      have small: "unat c < 128" using ctl le by simp
      have j1: "unat c + 1 = ?j" using ctl pos by simp
      have enough: "unat c + 1 \<le> length (take ?j xs @ ps' @ zs)"
        using j1 len by simp
      have whole: "\<And>ys. take ?j xs @ drop ?j xs @ ys = xs @ ys"
        by (metis append_assoc append_take_drop_id)
      have "spec_unpack (ps @ zs) = spec_unpack (c # (take ?j xs @ ps' @ zs))"
        by (simp add: ps)
      also have "\<dots> = map_option (\<lambda>ys. take ?j (take ?j xs @ ps' @ zs) @ ys)
                          (spec_unpack (drop ?j (take ?j xs @ ps' @ zs)))"
        by (simp only: spec_unpack_literal [OF small enough] j1)
      also have "\<dots> = map_option (\<lambda>ys. take ?j xs @ ys) (spec_unpack (ps' @ zs))"
        using len by (simp add: min_def)
      also have "\<dots> = map_option (\<lambda>ys. xs @ ys) (spec_unpack zs)"
        by (simp add: ih option.map_comp comp_def whole)
      finally show ?thesis .
    qed
  qed
qed

lemma pack_roundtrip:
  "pack_from n xs = Some ps \<Longrightarrow> spec_unpack (ps @ padding (length ps)) = Some xs"
  using spec_unpack_pack [of n xs ps "padding (length ps)"]
        spec_unpack_filler [of _ "[]"]
  by (simp add: padding_replicate)

lemma hd_zebra: "hd (zebra m) = 1"
  by (cases m) simp_all

lemma zebra_Cons: "\<exists>zs. zebra m = 1 # zs"
  by (cases m) simp_all

lemma length_zebra: "length (zebra m) = 3 * m + 1"
  by (induction m) simp_all

lemma pack_from_None_run:
  "xs \<noteq> [] \<Longrightarrow> 2 \<le> run_length xs \<Longrightarrow>
   pack_from (n + 2) (drop (run_length xs) xs) = None \<Longrightarrow> pack_from n xs = None"
  by (subst pack_from.simps) simp

lemma pack_from_None_literal:
  "xs \<noteq> [] \<Longrightarrow> \<not> 2 \<le> run_length xs \<Longrightarrow>
   pack_from (n + 1 + literal_length 127 xs) (drop (literal_length 127 xs) xs) = None \<Longrightarrow>
   pack_from n xs = None"
  by (subst pack_from.simps) simp

lemma pack_zebra_overrun:
  "sizeof_pack < n + 4 * m + 2 \<Longrightarrow> pack_from n (zebra m) = None"
proof (induction m arbitrary: n)
  case 0
  then show ?case
    by (subst pack_from.simps) (simp add: run_length_def)
next
  case (Suc m)
  obtain zs where z: "zebra m = 1 # zs" using zebra_Cons by blast
  have r1: "run_length (1 # 2 # 2 # zebra m) = 1"
    by (simp add: run_length_def)
  have l1: "literal_length 127 (1 # 2 # 2 # zebra m) = 1"
    by simp
  have r2: "run_length (2 # 2 # zebra m) = 2"
    by (simp add: run_length_def z)
  have "sizeof_pack < n + 2 + 2 + 4 * m + 2"
    using Suc.prems by simp
  then have "pack_from (n + 2 + 2) (zebra m) = None"
    by (rule Suc.IH)
  then have "pack_from (n + 2 + 2) (drop (run_length (2 # 2 # zebra m)) (2 # 2 # zebra m)) = None"
    by (simp add: r2)
  then have step2: "pack_from (n + 2) (2 # 2 # zebra m) = None"
    by (rule pack_from_None_run [rotated 2]) (simp_all add: r2)
  then have "pack_from (n + 1 + literal_length 127 (1 # 2 # 2 # zebra m))
               (drop (literal_length 127 (1 # 2 # 2 # zebra m)) (1 # 2 # 2 # zebra m)) = None"
    by (simp add: l1)
  then have "pack_from n (1 # 2 # 2 # zebra m) = None"
    by (rule pack_from_None_literal [rotated 2]) (simp_all add: r1)
  then show ?case by simp
qed

lemma pack_small: "pack_from 0 [1,2,2,1] = Some [0,1,255,2,0,1]"
  by (simp add: pack_from.simps run_length_def sizeof_pack_def sizeof_buf_def)


lemma literal_stop:
  "literal_length k xs = length xs \<or> literal_length k xs = k \<or>
   (\<exists>a zs. drop (literal_length k xs) xs = a # a # zs)"
  by (induction k xs rule: literal_length.induct) auto

lemma run_length_pair: "2 \<le> run_length (a # a # zs)"
  by (simp add: run_length_def)

lemma pack_from_Nil: "pack_from n [] = Some []"
  by (simp add: pack_from.simps)

lemma pack_from_run:
  "xs \<noteq> [] \<Longrightarrow> 2 \<le> run_length xs \<Longrightarrow> n + 2 \<le> sizeof_pack \<Longrightarrow>
   pack_from (n + 2) (drop (run_length xs) xs) = Some ps' \<Longrightarrow>
   pack_from n xs = Some (of_nat (257 - run_length xs) # hd xs # ps')"
  by (subst pack_from.simps) simp

lemma pack_from_literal:
  "xs \<noteq> [] \<Longrightarrow> \<not> 2 \<le> run_length xs \<Longrightarrow> n + 1 + literal_length 127 xs \<le> sizeof_pack \<Longrightarrow>
   pack_from (n + 1 + literal_length 127 xs) (drop (literal_length 127 xs) xs) = Some ps' \<Longrightarrow>
   pack_from n xs =
     Some (of_nat (literal_length 127 xs - 1) # take (literal_length 127 xs) xs @ ps')"
  by (subst pack_from.simps) simp

lemma pack_fits:
  "(3 * n + 4 * length xs + 2 \<le> 3 * sizeof_pack \<longrightarrow>
      (\<exists>ps. pack_from n xs = Some ps \<and> 3 * length ps \<le> 4 * length xs + 2)) \<and>
   (2 \<le> run_length xs \<longrightarrow> 3 * n + 4 * length xs \<le> 3 * sizeof_pack \<longrightarrow>
      (\<exists>ps. pack_from n xs = Some ps \<and> 3 * length ps \<le> 4 * length xs))"
proof (induction n xs rule: pack_from.induct)
  case (1 n xs)
  show ?case
  proof (cases "xs = []")
    case True
    then show ?thesis by (simp add: pack_from_Nil run_length_def)
  next
    case ne: False
    show ?thesis
    proof (cases "2 \<le> run_length xs")
      case True
      let ?k = "run_length xs"
      have klen: "?k \<le> length xs" by (rule run_length_le_length)
      have run: "\<exists>ps. pack_from n xs = Some ps \<and> 3 * length ps \<le> 4 * length xs"
        if room: "3 * n + 4 * length xs \<le> 3 * sizeof_pack"
      proof -
        from room True klen have fits: "n + 2 \<le> sizeof_pack" by simp
        from room True klen
        have "3 * (n + 2) + 4 * length (drop ?k xs) + 2 \<le> 3 * sizeof_pack" by simp
        with "1.IH"(1) [OF ne True fits] obtain ps' where
          rest: "pack_from (n + 2) (drop ?k xs) = Some ps'" and
          len: "3 * length ps' \<le> 4 * length (drop ?k xs) + 2"
          by blast
        from pack_from_run [OF ne True fits rest] len True klen show ?thesis by simp
      qed
      then show ?thesis using True by auto
    next
      case False
      let ?j = "literal_length 127 xs"
      have pos: "0 < ?j" using ne False by (rule literal_length_pos)
      have le: "?j \<le> 127" by (rule literal_length_le)
      have jlen: "?j \<le> length xs" by (rule literal_length_le_length)
      have lit: "\<exists>ps. pack_from n xs = Some ps \<and> 3 * length ps \<le> 4 * length xs + 2"
        if room: "3 * n + 4 * length xs + 2 \<le> 3 * sizeof_pack"
      proof -
        from room pos jlen have fits: "n + 1 + ?j \<le> sizeof_pack" by simp
        note ih = "1.IH"(2) [OF ne False fits]
        from literal_stop [of 127 xs]
        consider (all) "?j = length xs" | (limit) "?j = 127"
          | (pair) a zs where "drop ?j xs = a # a # zs"
          by blast
        then obtain ps' where
          rest: "pack_from (n + 1 + ?j) (drop ?j xs) = Some ps'" and
          len: "3 * (1 + ?j + length ps') \<le> 4 * length xs + 2"
        proof cases
          case all
          then have "pack_from (n + 1 + ?j) (drop ?j xs) = Some []"
            by (simp add: pack_from_Nil)
          moreover have "3 * (1 + ?j + length ([]::byte list)) \<le> 4 * length xs + 2"
            using all ne by (cases xs) simp_all
          ultimately show ?thesis using that by blast
        next
          case limit
          from room limit jlen
          have "3 * (n + 1 + ?j) + 4 * length (drop ?j xs) + 2 \<le> 3 * sizeof_pack" by simp
          with ih obtain ps' where
            r: "pack_from (n + 1 + ?j) (drop ?j xs) = Some ps'" and
            l: "3 * length ps' \<le> 4 * length (drop ?j xs) + 2"
            by blast
          from l limit jlen have "3 * (1 + ?j + length ps') \<le> 4 * length xs + 2" by simp
          with r show ?thesis using that by blast
        next
          case pair
          then have two: "2 \<le> run_length (drop ?j xs)" by (simp add: run_length_pair)
          from room pos jlen
          have "3 * (n + 1 + ?j) + 4 * length (drop ?j xs) \<le> 3 * sizeof_pack" by simp
          with ih two obtain ps' where
            r: "pack_from (n + 1 + ?j) (drop ?j xs) = Some ps'" and
            l: "3 * length ps' \<le> 4 * length (drop ?j xs)"
            by blast
          from l pos jlen have "3 * (1 + ?j + length ps') \<le> 4 * length xs + 2" by simp
          with r show ?thesis using that by blast
        qed
        from pack_from_literal [OF ne False fits rest] len jlen show ?thesis by simp
      qed
      then show ?thesis using False by auto
    qed
  qed
qed

lemma pack_short_line:
  "length xs \<le> 96000 \<Longrightarrow> \<exists>ps. pack_from 0 xs = Some ps \<and> 3 * length ps \<le> 4 * length xs + 2"
  using pack_fits [of 0 xs] by (simp add: sizeof_pack_def sizeof_buf_def)

text \<open>
  Claim C1. For every active byte range that fits the working buffer, the packer encodes
  runs of 2 to 128 equal bytes as \<open>257 - length\<close> and the byte, stretches of up to 127
  literal bytes as \<open>length - 1\<close> and the bytes, pads the stream with the filler byte to a
  multiple of 8, and unpacking the stream gives the original bytes back.

  Whenever the packer completes, the padded stream has a length that is a multiple of 8
  and the decoder of the scheme returns the line. But the packer does not complete for
  every line that fits the buffer: on \<open>zebra 32000\<close>, 96001 bytes long, it writes past
  the end of \<open>pack\<close>. Every line of at most 96000 bytes is packed.
\<close>

theorem pack_roundtrip_or_overrun:
  "(pack_from 0 xs = Some ps \<longrightarrow>
      spec_unpack (ps @ padding (length ps)) = Some xs \<and>
      length (ps @ padding (length ps)) mod 8 = 0) \<and>
   (length xs \<le> 96000 \<longrightarrow> pack_from 0 xs \<noteq> None) \<and>
   length (zebra 32000) \<le> sizeof_buf \<and>
   pack_from 0 (zebra 32000) = None"
proof -
  have "pack_from 0 (zebra 32000) = None"
    by (rule pack_zebra_overrun) (simp add: sizeof_pack_def sizeof_buf_def)
  moreover have "length xs \<le> 96000 \<longrightarrow> pack_from 0 xs \<noteq> None"
    using pack_short_line [of xs] by auto
  moreover have "length (zebra 32000) \<le> sizeof_buf"
    by (simp add: length_zebra sizeof_buf_def)
  ultimately show ?thesis
    using pack_roundtrip [of 0 xs ps] length_padded [of "length ps"] by simp
qed

theorem pack_roundtrip_or_overrun_witness:
  "pack_from 0 [1, 2, 2, 1] = Some [0, 1, 255, 2, 0, 1] \<and>
   spec_unpack ([0, 1, 255, 2, 0, 1] @ padding 6) = Some [1, 2, 2, 1] \<and>
   length ([0, 1, 255, 2, 0, 1] @ padding 6) = 8"
  using pack_roundtrip_or_overrun [of "[1, 2, 2, 1]" "[0, 1, 255, 2, 0, 1]"] pack_small
  by (simp add: padding_replicate)

text \<open>
  Claim C10. For every active range that fits the 102400-byte buffer the write index into
  \<open>pack\<close> stays within the array, because the packed size of \<open>n\<close> bytes is at most
  \<open>n + ceil (n / 127)\<close>.

  The array holds 128001 bytes. The line \<open>zebra 32000\<close> has 96001 bytes, fits the buffer,
  and drives the write index past the end of the array; and already the four bytes
  \<open>1, 2, 2, 1\<close> pack into six, more than \<open>4 + 1\<close>.
\<close>

theorem pack_write_index_overrun:
  "sizeof_pack = 128001 \<and>
   length (zebra 32000) = 96001 \<and> length (zebra 32000) \<le> sizeof_buf \<and>
   pack_from 0 (zebra 32000) = None \<and>
   pack_from 0 [1, 2, 2, 1] = Some [0, 1, 255, 2, 0, 1]"
proof -
  have "pack_from 0 (zebra 32000) = None"
    by (rule pack_zebra_overrun) (simp add: sizeof_pack_def sizeof_buf_def)
  then show ?thesis
    using pack_small by (simp add: length_zebra sizeof_pack_def sizeof_buf_def)
qed

subsection \<open>What \<open>generate_raster\<close> leaves of the configuration\<close>

lemma settings_reload [simp]:
  "settings_without_size (reload_size header c) = settings_without_size c"
  by (simp add: settings_without_size_def reload_size_def)




subsection \<open>When the raster encoder returns\<close>


text \<open>In colour mode a row of 34136 bytes, which is 11378 pixels, passes the width test
  of the source, and the colour loop then reads \<open>buf\<close> past its end.\<close>

lemma load_row_colour_past_buf:
  "raster_mode c = CHR ''c'' \<Longrightarrow> read_row (Perror ''Too wide'') d y w = Inr (data, w') \<Longrightarrow>
   colour_reads_past_buf d \<Longrightarrow> load_row c pass h d y w = None"
  by (simp add: load_row_def)

lemma colour_reads_past_buf_34136:
  "\<not> too_wide 34136" "colour_reads_past_buf 34136" "\<not> colour_reads_past_buf 34132"
  "row_stride (c\<lparr>raster_mode := CHR ''c'', width := 11378\<rparr>) = 34136"
  by (simp_all add: too_wide_def colour_reads_past_buf_def sizeof_buf_def row_stride_def
      row_bytes_def colour_or_grey_def cdiv_nonneg)








lemma raster_repeats_0: "raster_repeats basex basey 0 (c, header, w) = Some (True, [], c, w)"
  by (subst raster_repeats.simps) simp



subsection \<open>A failure in the first row\<close>

lemma raster_rows_fail:
  "0 \<le> y \<Longrightarrow> load_row c pass h d y w = Some (Inl w') \<Longrightarrow>
   raster_rows c x0 y0 pass h d y dir w = Some (False, [], w')"
  by (subst raster_rows.simps) simp

lemma raster_passes_fail:
  "pass < passes \<Longrightarrow>
   raster_rows c x0 y0 pass h d (height c - 1) False (w\<lparr>bitmap := fseek base_offset (bitmap w)\<rparr>) =
     Some (False, bs, w') \<Longrightarrow>
   raster_passes c x0 y0 passes base_offset h d pass w = Some (False, bs, w')"
  by (subst raster_passes.simps) simp

lemma raster_tiles_y_fail:
  "0 \<le> offy \<Longrightarrow>
   raster_passes c x0 (basey + offy) passes base_offset h d 0 w = Some (False, bs, w') \<Longrightarrow>
   raster_tiles_y c x0 basey passes base_offset h d offy w = Some (False, bs, w')"
  by (subst raster_tiles_y.simps) simp

lemma raster_tiles_x_fail:
  "0 \<le> offx \<Longrightarrow>
   raster_tiles_y c (basex + offx) basey passes base_offset h d (height c * (y_repeat c - 1)) w =
     Some (False, bs, w') \<Longrightarrow>
   raster_tiles_x c basex basey passes base_offset h d offx w = Some (False, bs, w')"
  by (subst raster_tiles_x.simps) simp

lemma raster_passes_count_pos: "0 < raster_passes_count c"
  by (simp add: raster_passes_count_def)

text \<open>When the first row read of the first tile fails, \<open>generate_raster\<close> returns \<open>false\<close>
  after the raster settings.\<close>

lemma generate_raster_first_row_fails:
  assumes rep: "raster_repeat c \<noteq> 0"
    and rh: "read_header header w = (hdr, w1)"
    and c': "c' = reload_size hdr c"
    and h: "0 < height c'" and wd: "0 < width c'"
    and xr: "0 < x_repeat c'" and yr: "0 < y_repeat c'"
    and row: "load_row c' 0 (row_bytes c') (row_stride c') (height c' - 1)
                (w1\<lparr>bitmap := fseek (big_to_little_endian hdr 10 4) (bitmap w1)\<rparr>) = Some (Inl w')"
  shows "generate_raster header c w = Some (False, raster_settings c', c', w')"
proof -
  let ?bx = "base_origin (x_center c) (width c) (resolution c)"
  let ?by = "base_origin (y_center c) (height c) (resolution c)"
  let ?off = "big_to_little_endian hdr 10 4"
  have ox: "0 \<le> width c' * (x_repeat c' - 1)" and oy: "0 \<le> height c' * (y_repeat c' - 1)"
    using h wd xr yr by simp_all
  have "raster_rows c' (?bx + width c' * (x_repeat c' - 1)) (?by + height c' * (y_repeat c' - 1))
          0 (row_bytes c') (row_stride c') (height c' - 1) False
          (w1\<lparr>bitmap := fseek ?off (bitmap w1)\<rparr>) = Some (False, [], w')"
    using h row by (intro raster_rows_fail) simp_all
  then have "raster_passes c' (?bx + width c' * (x_repeat c' - 1))
          (?by + height c' * (y_repeat c' - 1)) (raster_passes_count c') ?off
          (row_bytes c') (row_stride c') 0 w1 = Some (False, [], w')"
    by (rule raster_passes_fail [OF raster_passes_count_pos])
  then have "raster_tiles_y c' (?bx + width c' * (x_repeat c' - 1)) ?by (raster_passes_count c') ?off
          (row_bytes c') (row_stride c') (height c' * (y_repeat c' - 1)) w1 = Some (False, [], w')"
    by (rule raster_tiles_y_fail [OF oy])
  then have t: "raster_tiles_x c' ?bx ?by (raster_passes_count c') ?off
          (row_bytes c') (row_stride c') (width c' * (x_repeat c' - 1)) w1 = Some (False, [], w')"
    by (rule raster_tiles_x_fail [OF ox])
  show ?thesis
    unfolding generate_raster_def
    by (subst raster_repeats.simps) (simp add: rep rh c' [symmetric] t)
qed

subsection \<open>Colour separation\<close>

lemma pixel_mask_value_spec:
  "pixel_mask_value f0 f1 f2 =
     (if spec_mask f0 f1 f2 = 7 then (0, 255)
      else (spec_mask f0 f1 f2, spec_luminance f0 f1 f2))"
proof -
  have nn: "0 \<le> uint f0" "0 \<le> uint f1" "0 \<le> uint f2" by simp_all
  show ?thesis
    using nn
    by (cases "240 < uint f0"; cases "240 < uint f1"; cases "240 < uint f2")
       (simp_all add: pixel_mask_value_def colour_channel_def spec_mask_def spec_luminance_def
          spec_saturated_def cdiv_nonneg)
qed

lemma colour_pixel_spec: "colour_pixel pass f0 f1 f2 = spec_separated pass f0 f1 f2"
  by (simp add: colour_pixel_def pixel_mask_value_spec spec_separated_def)

lemma colour_line_nth:
  "3 * i + 2 < length fs \<Longrightarrow>
   colour_line pass fs ! i = colour_pixel pass (fs ! (3 * i)) (fs ! (3 * i + 1)) (fs ! (3 * i + 2))"
proof (induction pass fs arbitrary: i rule: colour_line.induct)
  case (1 pass f0 f1 f2 fs)
  show ?case
  proof (cases i)
    case 0
    then show ?thesis by simp
  next
    case (Suc j)
    with "1.prems" have "3 * j + 2 < length fs" by simp
    from "1.IH" [OF this] Suc show ?thesis
      by (simp add: numeral_3_eq_3)
  qed
qed simp_all

lemma length_colour_line: "length (colour_line pass fs) = length fs div 3"
  by (induction pass fs rule: colour_line.induct) simp_all

text \<open>The first \<open>h\<close> bytes that the colour loop stores, when the row has at least \<open>3 h\<close>
  bytes.\<close>

lemma take_colour_line:
  assumes "3 * h \<le> length data"
  shows "take h (colour_line pass data) =
           map (\<lambda>i. spec_separated pass (data ! (3 * i)) (data ! (3 * i + 1)) (data ! (3 * i + 2)))
             [0..<h]"
proof (rule nth_equalityI)
  from assms have "h \<le> length data div 3" by (simp add: less_eq_div_iff_mult_less_eq)
  then show len: "length (take h (colour_line pass data)) =
      length (map (\<lambda>i. spec_separated pass (data ! (3 * i)) (data ! (3 * i + 1)) (data ! (3 * i + 2)))
                [0..<h])"
    by (simp add: length_colour_line)
  fix i
  assume "i < length (take h (colour_line pass data))"
  with len have i: "i < h" by simp
  with assms have "3 * i + 2 < length data" by simp
  from colour_line_nth [OF this] i
  show "take h (colour_line pass data) ! i =
        map (\<lambda>i. spec_separated pass (data ! (3 * i)) (data ! (3 * i + 1)) (data ! (3 * i + 2)))
          [0..<h] ! i"
    by (simp add: colour_pixel_spec)
qed

lemma load_row_colour:
  assumes "raster_mode c = CHR ''c''"
    and "\<not> too_wide d" and "\<not> colour_reads_past_buf d"
    and "data = take (nat d) (drop (offset (bitmap w)) (contents (bitmap w)))"
    and "int (length data) = d"
    and "0 \<le> h" and "3 * h \<le> d"
  shows "load_row c pass h d y w =
           Some (Inr (map (\<lambda>i. spec_separated pass (data ! (3 * i)) (data ! (3 * i + 1))
                                  (data ! (3 * i + 2))) [0..<nat h],
                      w\<lparr>bitmap := (bitmap w)\<lparr>offset := offset (bitmap w) + nat d\<rparr>\<rparr>))"
proof -
  from assms(5,6,7) have "3 * nat h \<le> length data" by simp
  from take_colour_line [OF this] assms(1,2,3,5) assms(4) [symmetric]
  show ?thesis
    by (simp add: load_row_def read_row_def fread_def Let_def)
qed

lemma raster_rows_colour:
  assumes "raster_mode c = CHR ''c''" and "0 \<le> y"
    and "load_row c pass h d y w = Some (Inr (row, w'))"
  shows "raster_rows c x0 y0 pass h d y dir w =
           (case emit_line c x0 y0 y dir
                   (map (\<lambda>b. word_of_int (cdiv (uint b * raster_power c) 255)) row) of
              None \<Rightarrow> None
            | Some (bs, dir') \<Rightarrow>
                map_option (written_before bs) (raster_rows c x0 y0 pass h d (y - 1) dir' w'))"
  using assms
  by (subst raster_rows.simps) (simp add: power_scale_def colour_or_grey_def)

subsection \<open>The passes of one tile\<close>

lemma raster_passes_in_order:
  "raster_passes c x0 y0 passes base_offset h d pass w =
     passes_in_order
       (\<lambda>p w. raster_rows c x0 y0 p h d (height c - 1) False
                 (w\<lparr>bitmap := fseek base_offset (bitmap w)\<rparr>))
       [pass..passes - 1] w"
proof (induction c x0 y0 passes base_offset h d pass w rule: raster_passes.induct)
  case (1 c x0 y0 passes base_offset h d pass w)
  show ?case
  proof (cases "pass < passes")
    case False
    then show ?thesis by (subst raster_passes.simps) simp
  next
    case True
    then have up: "[pass..passes - 1] = pass # [pass + 1..passes - 1]"
      by (simp add: upto_rec1)
    let ?rows = "raster_rows c x0 y0 pass h d (height c - 1) False
                   (w\<lparr>bitmap := fseek base_offset (bitmap w)\<rparr>)"
    show ?thesis
    proof (cases ?rows)
      case None
      with True up show ?thesis by (subst raster_passes.simps) simp
    next
      case (Some r)
      obtain ok bs w' where r: "r = (ok, bs, w')" by (cases r) auto
      show ?thesis
      proof (cases ok)
        case False
        with True up Some r show ?thesis by (subst raster_passes.simps) simp
      next
        case ok: True
        from "1.IH" [OF True Some [unfolded r] refl refl ok]
        show ?thesis using True up Some r ok by (subst raster_passes.simps) simp
      qed
    qed
  qed
qed

lemma raster_tiles_y_single:
  assumes "y_repeat c = 1" and "0 < height c"
  shows "raster_tiles_y c x0 basey passes base_offset h d (height c * (y_repeat c - 1)) w =
           raster_passes c x0 basey passes base_offset h d 0 w"
proof -
  have stop: "raster_tiles_y c x0 basey passes base_offset h d (0 - height c) w' = Some (True, [], w')"
    for w'
    using assms(2) by (subst raster_tiles_y.simps) simp
  show ?thesis
  proof (cases "raster_passes c x0 basey passes base_offset h d 0 w")
    case None
    then show ?thesis using assms(1) by (subst raster_tiles_y.simps) simp
  next
    case (Some r)
    obtain ok bs w' where r: "r = (ok, bs, w')" by (cases r) auto
    with Some stop [of w'] show ?thesis
      using assms(1) by (subst raster_tiles_y.simps) (simp add: written_before_def)
  qed
qed

lemma raster_tiles_x_single:
  assumes "x_repeat c = 1" and "y_repeat c = 1" and "0 < width c" and "0 < height c"
  shows "raster_tiles_x c basex basey passes base_offset h d (width c * (x_repeat c - 1)) w =
           raster_passes c basex basey passes base_offset h d 0 w"
proof -
  have stop: "raster_tiles_x c basex basey passes base_offset h d (0 - width c) w' = Some (True, [], w')"
    for w'
    using assms(3) by (subst raster_tiles_x.simps) simp
  note inner = raster_tiles_y_single [OF assms(2,4)]
  show ?thesis
  proof (cases "raster_passes c basex basey passes base_offset h d 0 w")
    case None
    then show ?thesis using assms(1) by (subst raster_tiles_x.simps) (simp add: inner)
  next
    case (Some r)
    obtain ok bs w' where r: "r = (ok, bs, w')" by (cases r) auto
    with Some stop [of w'] show ?thesis
      using assms(1) by (subst raster_tiles_x.simps) (simp add: inner written_before_def)
  qed
qed

text \<open>One repeat of one tile: the settings, the passes, and the end of the raster block
  unless a pass has failed.\<close>

lemma generate_raster_single:
  assumes "raster_repeat c = 1" and "x_repeat c = 1" and "y_repeat c = 1"
    and rh: "read_header header w = (hdr, w1)"
    and c': "c' = reload_size hdr c"
    and "0 < width c'" and "0 < height c'"
  shows "generate_raster header c w =
           map_option
             (\<lambda>r. case r of (ok, bs, w2) \<Rightarrow>
                     (ok, raster_settings c' @ bs @ (if ok then raster_end else []), c', w2))
             (raster_passes c' (base_origin (x_center c) (width c) (resolution c))
                (base_origin (y_center c) (height c) (resolution c))
                (raster_passes_count c') (big_to_little_endian hdr 10 4)
                (row_bytes c') (row_stride c') 0 w1)"
proof -
  have rep: "x_repeat c' = 1" "y_repeat c' = 1"
    using assms(2,3) by (simp_all add: c' reload_size_def)
  note tiles = raster_tiles_x_single [OF rep assms(6,7)]
  let ?p = "raster_passes c' (base_origin (x_center c) (width c) (resolution c))
                (base_origin (y_center c) (height c) (resolution c))
                (raster_passes_count c') (big_to_little_endian hdr 10 4)
                (row_bytes c') (row_stride c') 0 w1"
  show ?thesis
  proof (cases ?p)
    case None
    then show ?thesis
      unfolding generate_raster_def assms(1)
      by (subst raster_repeats.simps) (simp add: rh c' [symmetric] tiles)
  next
    case (Some r)
    obtain ok bs w2 where r: "r = (ok, bs, w2)" by (cases r) auto
    with Some show ?thesis
      unfolding generate_raster_def assms(1)
      by (subst raster_repeats.simps) (simp add: rh c' [symmetric] tiles raster_repeats_0)
  qed
qed

lemma upto_0_6: "[0..6] = [0, 1, 2, 3, 4, 5, 6::int]"
  by (simp add: upto_rec1)

lemma generate_raster_colour:
  assumes "raster_mode c = CHR ''c''"
    and "raster_repeat c = 1" and "x_repeat c = 1" and "y_repeat c = 1"
    and rh: "read_header header w = (hdr, w1)"
    and c': "c' = reload_size hdr c"
    and "0 < width c'" and "0 < height c'"
  shows "generate_raster header c w =
           map_option
             (\<lambda>r. case r of (ok, bs, w2) \<Rightarrow>
                (ok,
                 bytes_of (ESC # ''*r0F'') @
                 bytes_of (ESC # ''&y100P'') @
                 bytes_of (ESC # ''&z'' @ fmt_d (raster_speed c) @ ''S'') @
                 bytes_of (ESC # ''*r'' @ fmt_d (height c') @ ''T'') @
                 bytes_of (ESC # ''*r'' @ fmt_d (width c') @ ''S'') @
                 bytes_of (ESC # ''*b7M'') @
                 bytes_of (ESC # ''&y1O'') @
                 bytes_of (ESC # ''*r1A'') @
                 bs @ (if ok then raster_end else []),
                 c', w2))
             (passes_in_order
                (\<lambda>pass w. raster_rows c' (base_origin (x_center c) (width c) (resolution c))
                   (base_origin (y_center c) (height c) (resolution c)) pass
                   (width c') (cdiv (width c' * 3 + 3) 4 * 4) (height c' - 1) False
                   (w\<lparr>bitmap := fseek (big_to_little_endian hdr 10 4) (bitmap w)\<rparr>))
                [0, 1, 2, 3, 4, 5, 6] w1)"
proof -
  have mode: "raster_mode c' = CHR ''c''" and rep: "x_repeat c' = 1" "y_repeat c' = 1"
    and speed: "raster_speed c' = raster_speed c"
    using assms(1,3,4) by (simp_all add: c' reload_size_def)
  have settings: "raster_settings c' =
                 bytes_of (ESC # ''*r0F'') @
                 bytes_of (ESC # ''&y100P'') @
                 bytes_of (ESC # ''&z'' @ fmt_d (raster_speed c) @ ''S'') @
                 bytes_of (ESC # ''*r'' @ fmt_d (height c') @ ''T'') @
                 bytes_of (ESC # ''*r'' @ fmt_d (width c') @ ''S'') @
                 bytes_of (ESC # ''*b7M'') @
                 bytes_of (ESC # ''&y1O'') @
                 bytes_of (ESC # ''*r1A'')"
    by (simp add: raster_settings_def colour_or_grey_def mode rep speed fmt_eval)
  have count: "raster_passes_count c' = 7" and rb: "row_bytes c' = width c'"
    and rs: "row_stride c' = cdiv (width c' * 3 + 3) 4 * 4"
    by (simp_all add: raster_passes_count_def row_bytes_def row_stride_def colour_or_grey_def mode)
  show ?thesis
    unfolding generate_raster_single [OF assms(2,3,4) rh c' assms(7,8)]
      raster_passes_in_order count rb rs settings
    by (simp add: upto_0_6)
qed

subsection \<open>The bitmap of three pixels\<close>

lemma length_header_1x3: "length header_1x3 = 54"
  by (simp add: header_1x3_def)

lemma three_pixels_header:
  "big_to_little_endian (fst (read_header no_header \<lparr>bitmap = \<lparr>contents = three_pixels, offset = 0\<rparr>, stderr = []\<rparr>)) 18 4 = 1"
  "big_to_little_endian (fst (read_header no_header \<lparr>bitmap = \<lparr>contents = three_pixels, offset = 0\<rparr>, stderr = []\<rparr>)) 22 4 = 3"
  "big_to_little_endian (fst (read_header no_header \<lparr>bitmap = \<lparr>contents = three_pixels, offset = 0\<rparr>, stderr = []\<rparr>)) 10 4 = 54"
  by code_simp+

lemma three_pixels_world:
  "snd (read_header no_header \<lparr>bitmap = \<lparr>contents = three_pixels, offset = 0\<rparr>, stderr = []\<rparr>) =
   \<lparr>bitmap = \<lparr>contents = three_pixels, offset = 54\<rparr>, stderr = []\<rparr>"
  by (simp add: read_header_def fread_def three_pixels_def length_header_1x3)

lemma three_pixels_rows:
  "take 4 (drop 54 three_pixels) = [250, 250, 250, 0]"
  "take 4 (drop 58 three_pixels) = [250, 20, 40, 0]"
  "take 4 (drop 62 three_pixels) = [10, 20, 30, 0]"
  by (simp_all add: three_pixels_def length_header_1x3)

lemma emit_line_blank: "emit_line c x0 y0 y dir [0] = Some ([], dir)"
  by (simp add: emit_line_def)

lemma pack_from_single: "pack_from 0 [b] = Some [0, b]"
  by (subst pack_from.simps, subst pack_from.simps)
     (simp add: run_length_def sizeof_pack_def sizeof_buf_def)

lemma replicate_6: "replicate 6 x = [x, x, x, x, x, x]"
  by (simp add: numeral_eq_Suc)

lemma fmt_d_1_8: "fmt_d 1 = ''1''" "fmt_d 8 = ''8''"
  by (simp_all add: fmt_eval)

lemma emit_line_single:
  "b \<noteq> 0 \<Longrightarrow> colour_or_grey c \<Longrightarrow>
   emit_line c x0 y0 y False [b] =
     Some (bytes_of (ESC # ''*p'' @ fmt_d (y0 + y) @ ''Y'') @
           bytes_of (ESC # ''*p'' @ fmt_d x0 @ ''X'') @
           bytes_of (ESC # ''*b1A'') @
           bytes_of (ESC # ''*b8W'') @
           [0, b, 0x80, 0x80, 0x80, 0x80, 0x80, 0x80], True)"
  by (simp add: emit_line_def pack_from_single padding_replicate cdiv_nonneg fmt_d_1_8
      replicate_6)

lemma three_pixels_separated:
  "spec_separated p 250 250 250 = 0"
  "spec_separated p 250 20 40 = (if p = 1 then 225 else 0)"
  "spec_separated p 10 20 30 = (if p = 0 then 235 else 0)"
  by (simp_all add: spec_separated_def spec_mask_def spec_luminance_def spec_saturated_def)

lemma three_pixels_mode:
  "raster_mode (colour_config\<lparr>width := 1, height := 3\<rparr>) = CHR ''c''"
  "colour_or_grey (colour_config\<lparr>width := 1, height := 3\<rparr>)"
  "raster_power (colour_config\<lparr>width := 1, height := 3\<rparr>) = 40"
  by (simp_all add: colour_config_def default_config_def colour_or_grey_def)

lemma three_pixels_load:
  assumes "take 4 (drop k three_pixels) = [f0, f1, f2, f3]"
  shows "load_row (colour_config\<lparr>width := 1, height := 3\<rparr>) p 1 4 y
           \<lparr>bitmap = \<lparr>contents = three_pixels, offset = k\<rparr>, stderr = []\<rparr> =
         Some (Inr ([spec_separated p f0 f1 f2],
                    \<lparr>bitmap = \<lparr>contents = three_pixels, offset = k + 4\<rparr>, stderr = []\<rparr>))"
proof -
  have guard: "\<not> too_wide 4" "\<not> colour_reads_past_buf 4"
    by (simp_all add: too_wide_def colour_reads_past_buf_def sizeof_buf_def)
  from load_row_colour [OF three_pixels_mode(1) guard, where h = 1 and pass = p and y = y
      and data = "[f0, f1, f2, f3]"
      and w = "\<lparr>bitmap = \<lparr>contents = three_pixels, offset = k\<rparr>, stderr = []\<rparr>"] assms
  show ?thesis by (simp add: numeral_2_eq_2)
qed

lemma three_pixels_stop:
  "raster_rows (colour_config\<lparr>width := 1, height := 3\<rparr>) 0 0 p 1 4 (- 1) dir w = Some (True, [], w)"
  by (subst raster_rows.simps) simp

lemma three_pixels_scale: "cdiv 9400 255 = 36" "cdiv 9000 255 = 35" "cdiv 0 255 = 0"
  by (simp_all add: cdiv_nonneg)

text \<open>One pass over the three rows, at the default raster power 40:
  \<open>235 * 40 / 255 = 36\<close> and \<open>225 * 40 / 255 = 35\<close>. First the row \<open>y = 0\<close> alone.\<close>

lemma three_pixels_y0:
  "p = 0 \<longrightarrow> \<not> dir \<Longrightarrow>
   raster_rows (colour_config\<lparr>width := 1, height := 3\<rparr>) 0 0 p 1 4 0 dir
     \<lparr>bitmap = \<lparr>contents = three_pixels, offset = 62\<rparr>, stderr = []\<rparr> =
   Some (True,
         (if p = 0
          then bytes_of (ESC # ''*p0Y'') @ bytes_of (ESC # ''*p0X'') @ bytes_of (ESC # ''*b1A'') @
               bytes_of (ESC # ''*b8W'') @ [0, 36, 0x80, 0x80, 0x80, 0x80, 0x80, 0x80]
          else []),
         \<lparr>bitmap = \<lparr>contents = three_pixels, offset = 66\<rparr>, stderr = []\<rparr>)"
  by (subst raster_rows_colour [OF three_pixels_mode(1) _ three_pixels_load [OF three_pixels_rows(3)]])
     (simp_all add: three_pixels_separated three_pixels_mode(3) three_pixels_scale
        emit_line_blank emit_line_single [OF _ three_pixels_mode(2)] three_pixels_stop
        written_before_def fmt_d_0)

lemma three_pixels_y1:
  "raster_rows (colour_config\<lparr>width := 1, height := 3\<rparr>) 0 0 p 1 4 1 False
     \<lparr>bitmap = \<lparr>contents = three_pixels, offset = 58\<rparr>, stderr = []\<rparr> =
   Some (True,
         (if p = 0
          then bytes_of (ESC # ''*p0Y'') @ bytes_of (ESC # ''*p0X'') @ bytes_of (ESC # ''*b1A'') @
               bytes_of (ESC # ''*b8W'') @ [0, 36, 0x80, 0x80, 0x80, 0x80, 0x80, 0x80]
          else if p = 1
          then bytes_of (ESC # ''*p1Y'') @ bytes_of (ESC # ''*p0X'') @ bytes_of (ESC # ''*b1A'') @
               bytes_of (ESC # ''*b8W'') @ [0, 35, 0x80, 0x80, 0x80, 0x80, 0x80, 0x80]
          else []),
         \<lparr>bitmap = \<lparr>contents = three_pixels, offset = 66\<rparr>, stderr = []\<rparr>)"
  by (subst raster_rows_colour [OF three_pixels_mode(1) _ three_pixels_load [OF three_pixels_rows(2)]])
     (simp_all add: three_pixels_separated three_pixels_mode(3) three_pixels_scale
        emit_line_blank emit_line_single [OF _ three_pixels_mode(2)] three_pixels_y0
        written_before_def fmt_d_0 fmt_d_1_8)

lemma three_pixels_pass:
  "raster_rows (colour_config\<lparr>width := 1, height := 3\<rparr>) 0 0 p 1 4 2 False
     \<lparr>bitmap = \<lparr>contents = three_pixels, offset = 54\<rparr>, stderr = []\<rparr> =
   Some (True,
         (if p = 0
          then bytes_of (ESC # ''*p0Y'') @ bytes_of (ESC # ''*p0X'') @ bytes_of (ESC # ''*b1A'') @
               bytes_of (ESC # ''*b8W'') @ [0, 36, 0x80, 0x80, 0x80, 0x80, 0x80, 0x80]
          else if p = 1
          then bytes_of (ESC # ''*p1Y'') @ bytes_of (ESC # ''*p0X'') @ bytes_of (ESC # ''*b1A'') @
               bytes_of (ESC # ''*b8W'') @ [0, 35, 0x80, 0x80, 0x80, 0x80, 0x80, 0x80]
          else []),
         \<lparr>bitmap = \<lparr>contents = three_pixels, offset = 66\<rparr>, stderr = []\<rparr>)"
  by (subst raster_rows_colour [OF three_pixels_mode(1) _ three_pixels_load [OF three_pixels_rows(1)]])
     (simp_all add: three_pixels_separated three_pixels_mode(3) three_pixels_scale
        emit_line_blank three_pixels_y1 written_before_def)

lemma three_pixels_passes:
  "passes_in_order
     (\<lambda>pass w. raster_rows (colour_config\<lparr>width := 1, height := 3\<rparr>) 0 0 pass 1 4 2 False
                  (w\<lparr>bitmap := fseek 54 (bitmap w)\<rparr>))
     [0, 1, 2, 3, 4, 5, 6]
     \<lparr>bitmap = \<lparr>contents = three_pixels, offset = 54\<rparr>, stderr = []\<rparr> =
   Some (True,
         (bytes_of (ESC # ''*p0Y'') @ bytes_of (ESC # ''*p0X'') @ bytes_of (ESC # ''*b1A'') @
          bytes_of (ESC # ''*b8W'') @ [0, 36, 0x80, 0x80, 0x80, 0x80, 0x80, 0x80]) @
         (bytes_of (ESC # ''*p1Y'') @ bytes_of (ESC # ''*p0X'') @ bytes_of (ESC # ''*b1A'') @
          bytes_of (ESC # ''*b8W'') @ [0, 35, 0x80, 0x80, 0x80, 0x80, 0x80, 0x80]),
         \<lparr>bitmap = \<lparr>contents = three_pixels, offset = 66\<rparr>, stderr = []\<rparr>)"
  by (simp add: fseek_def three_pixels_pass written_before_def)

lemma fmt_d_3: "fmt_d 3 = ''3''"
  by (simp add: fmt_eval)

lemma three_pixels_reload:
  "reload_size (fst (read_header no_header \<lparr>bitmap = \<lparr>contents = three_pixels, offset = 0\<rparr>, stderr = []\<rparr>)) colour_config =
   colour_config\<lparr>width := 1, height := 3\<rparr>"
  by (simp add: reload_size_def three_pixels_header)

lemma colour_config_fields:
  "raster_mode colour_config = CHR ''c''" "raster_repeat colour_config = 1"
  "x_repeat colour_config = 1" "y_repeat colour_config = 1" "raster_speed colour_config = 100"
  "base_origin (x_center colour_config) (width colour_config) (resolution colour_config) = 0"
  "base_origin (y_center colour_config) (height colour_config) (resolution colour_config) = 0"
  by (simp_all add: colour_config_def default_config_def base_origin_def cdiv_0)

text \<open>The whole raster block for the bitmap of three pixels.\<close>

lemma three_pixels_raster:
  "generate_raster no_header colour_config
     \<lparr>bitmap = \<lparr>contents = three_pixels, offset = 0\<rparr>, stderr = []\<rparr> =
   Some (True,
         bytes_of (ESC # ''*r0F'') @ bytes_of (ESC # ''&y100P'') @ bytes_of (ESC # ''&z100S'') @
         bytes_of (ESC # ''*r3T'') @ bytes_of (ESC # ''*r1S'') @ bytes_of (ESC # ''*b7M'') @
         bytes_of (ESC # ''&y1O'') @ bytes_of (ESC # ''*r1A'') @
         (bytes_of (ESC # ''*p0Y'') @ bytes_of (ESC # ''*p0X'') @ bytes_of (ESC # ''*b1A'') @
          bytes_of (ESC # ''*b8W'') @ [0, 36, 0x80, 0x80, 0x80, 0x80, 0x80, 0x80]) @
         (bytes_of (ESC # ''*p1Y'') @ bytes_of (ESC # ''*p0X'') @ bytes_of (ESC # ''*b1A'') @
          bytes_of (ESC # ''*b8W'') @ [0, 35, 0x80, 0x80, 0x80, 0x80, 0x80, 0x80]) @
         bytes_of (ESC # ''*rC'') @ [26, 4],
         colour_config\<lparr>width := 1, height := 3\<rparr>,
         \<lparr>bitmap = \<lparr>contents = three_pixels, offset = 66\<rparr>, stderr = []\<rparr>)"
proof -
  let ?w = "\<lparr>bitmap = \<lparr>contents = three_pixels, offset = 0\<rparr>, stderr = []\<rparr>"
  let ?w1 = "\<lparr>bitmap = \<lparr>contents = three_pixels, offset = 54\<rparr>, stderr = []\<rparr>"
  let ?c = "colour_config\<lparr>width := 1, height := 3\<rparr>"
  have rh: "read_header no_header ?w = (fst (read_header no_header ?w), ?w1)"
    by (simp add: three_pixels_world [symmetric])
  have c: "?c = reload_size (fst (read_header no_header ?w)) colour_config"
    by (simp add: three_pixels_reload)
  have fmt: "fmt_d 100 = ''100''" "fmt_d 3 = ''3''" "fmt_d 1 = ''1''"
    by (simp_all add: fmt_eval)
  show ?thesis
    using generate_raster_colour [OF colour_config_fields(1,2,3,4) rh c]
    by (simp add: three_pixels_header colour_config_fields cdiv_nonneg three_pixels_passes fmt
        raster_end_def del: passes_in_order.simps)
qed

text \<open>
  Claim C5, as amended. In colour mode each channel of a pixel is saturated iff its
  value exceeds 240, the mask has one bit per saturated channel and the luminance is the
  average of the channels that are not saturated; the byte of a pixel in a pass is
  \<open>255 - luminance\<close> in the pass whose number is its mask and 0 (blank: the inverse of
  255) in every other pass, and a pixel with all three channels saturated is blank in
  every pass. A row that is read in full, of \<open>h\<close> pixels in \<open>d\<close> bytes with \<open>3 h \<le> d\<close>, is
  converted to these bytes, provided the colour loop stays within \<open>buf\<close>. The row loop
  scales each byte by \<open>raster_power / 255\<close> before it emits the line. And the raster
  block of one repeat and one tile is the settings, with the raster power 100 and the
  compression 7, followed by the seven passes numbered 0 to 6 in this order, each over
  all rows, and the end of the block unless a pass has failed.
\<close>

theorem colour_separation:
  assumes "raster_mode c = CHR ''c''"
  shows
    "colour_pixel pass f0 f1 f2 =
       (if spec_mask f0 f1 f2 = 7 then 0
        else if pass = spec_mask f0 f1 f2 then word_of_int (255 - spec_luminance f0 f1 f2)
        else 0) \<and>
     (\<not> too_wide d \<and> \<not> colour_reads_past_buf d \<and>
      data = take (nat d) (drop (offset (bitmap w)) (contents (bitmap w))) \<and>
      int (length data) = d \<and> 0 \<le> h \<and> 3 * h \<le> d \<longrightarrow>
      load_row c pass h d y w =
        Some (Inr (map (\<lambda>i. colour_pixel pass (data ! (3 * i)) (data ! (3 * i + 1))
                               (data ! (3 * i + 2))) [0..<nat h],
                   w\<lparr>bitmap := (bitmap w)\<lparr>offset := offset (bitmap w) + nat d\<rparr>\<rparr>))) \<and>
     (0 \<le> y \<and> load_row c pass h d y w = Some (Inr (row, w')) \<longrightarrow>
      raster_rows c x0 y0 pass h d y dir w =
        (case emit_line c x0 y0 y dir
                (map (\<lambda>b. word_of_int (cdiv (uint b * raster_power c) 255)) row) of
           None \<Rightarrow> None
         | Some (bs, dir') \<Rightarrow>
             map_option (written_before bs) (raster_rows c x0 y0 pass h d (y - 1) dir' w'))) \<and>
     (raster_repeat c = 1 \<and> x_repeat c = 1 \<and> y_repeat c = 1 \<and>
      read_header header w = (hdr, w1) \<and> c' = reload_size hdr c \<and>
      0 < width c' \<and> 0 < height c' \<longrightarrow>
      generate_raster header c w =
        map_option
          (\<lambda>r. case r of (ok, bs, w2) \<Rightarrow>
             (ok,
              bytes_of (ESC # ''*r0F'') @
              bytes_of (ESC # ''&y100P'') @
              bytes_of (ESC # ''&z'' @ fmt_d (raster_speed c) @ ''S'') @
              bytes_of (ESC # ''*r'' @ fmt_d (height c') @ ''T'') @
              bytes_of (ESC # ''*r'' @ fmt_d (width c') @ ''S'') @
              bytes_of (ESC # ''*b7M'') @
              bytes_of (ESC # ''&y1O'') @
              bytes_of (ESC # ''*r1A'') @
              bs @ (if ok then raster_end else []),
              c', w2))
          (passes_in_order
             (\<lambda>pass w. raster_rows c' (base_origin (x_center c) (width c) (resolution c))
                (base_origin (y_center c) (height c) (resolution c)) pass
                (width c') (cdiv (width c' * 3 + 3) 4 * 4) (height c' - 1) False
                (w\<lparr>bitmap := fseek (big_to_little_endian hdr 10 4) (bitmap w)\<rparr>))
             [0, 1, 2, 3, 4, 5, 6] w1))"
proof (intro conjI impI)
  show "colour_pixel pass f0 f1 f2 =
       (if spec_mask f0 f1 f2 = 7 then 0
        else if pass = spec_mask f0 f1 f2 then word_of_int (255 - spec_luminance f0 f1 f2)
        else 0)"
    by (simp add: colour_pixel_spec spec_separated_def)
next
  assume "\<not> too_wide d \<and> \<not> colour_reads_past_buf d \<and>
      data = take (nat d) (drop (offset (bitmap w)) (contents (bitmap w))) \<and>
      int (length data) = d \<and> 0 \<le> h \<and> 3 * h \<le> d"
  then have "\<not> too_wide d" "\<not> colour_reads_past_buf d"
    "data = take (nat d) (drop (offset (bitmap w)) (contents (bitmap w)))"
    "int (length data) = d" "0 \<le> h" "3 * h \<le> d"
    by blast+
  then have "load_row c pass h d y w =
           Some (Inr (map (\<lambda>i. spec_separated pass (data ! (3 * i)) (data ! (3 * i + 1))
                                  (data ! (3 * i + 2))) [0..<nat h],
                      w\<lparr>bitmap := (bitmap w)\<lparr>offset := offset (bitmap w) + nat d\<rparr>\<rparr>))"
    by (rule load_row_colour [OF assms])
  then show "load_row c pass h d y w =
        Some (Inr (map (\<lambda>i. colour_pixel pass (data ! (3 * i)) (data ! (3 * i + 1))
                               (data ! (3 * i + 2))) [0..<nat h],
                   w\<lparr>bitmap := (bitmap w)\<lparr>offset := offset (bitmap w) + nat d\<rparr>\<rparr>))"
    by (simp add: colour_pixel_spec)
next
  assume "0 \<le> y \<and> load_row c pass h d y w = Some (Inr (row, w'))"
  then have "0 \<le> y" "load_row c pass h d y w = Some (Inr (row, w'))" by blast+
  then show "raster_rows c x0 y0 pass h d y dir w =
        (case emit_line c x0 y0 y dir
                (map (\<lambda>b. word_of_int (cdiv (uint b * raster_power c) 255)) row) of
           None \<Rightarrow> None
         | Some (bs, dir') \<Rightarrow>
             map_option (written_before bs) (raster_rows c x0 y0 pass h d (y - 1) dir' w'))"
    by (rule raster_rows_colour [OF assms])
next
  assume "raster_repeat c = 1 \<and> x_repeat c = 1 \<and> y_repeat c = 1 \<and>
      read_header header w = (hdr, w1) \<and> c' = reload_size hdr c \<and>
      0 < width c' \<and> 0 < height c'"
  then have "raster_repeat c = 1" "x_repeat c = 1" "y_repeat c = 1"
    "read_header header w = (hdr, w1)" "c' = reload_size hdr c" "0 < width c'" "0 < height c'"
    by blast+
  then show "generate_raster header c w =
        map_option
          (\<lambda>r. case r of (ok, bs, w2) \<Rightarrow>
             (ok,
              bytes_of (ESC # ''*r0F'') @
              bytes_of (ESC # ''&y100P'') @
              bytes_of (ESC # ''&z'' @ fmt_d (raster_speed c) @ ''S'') @
              bytes_of (ESC # ''*r'' @ fmt_d (height c') @ ''T'') @
              bytes_of (ESC # ''*r'' @ fmt_d (width c') @ ''S'') @
              bytes_of (ESC # ''*b7M'') @
              bytes_of (ESC # ''&y1O'') @
              bytes_of (ESC # ''*r1A'') @
              bs @ (if ok then raster_end else []),
              c', w2))
          (passes_in_order
             (\<lambda>pass w. raster_rows c' (base_origin (x_center c) (width c) (resolution c))
                (base_origin (y_center c) (height c) (resolution c)) pass
                (width c') (cdiv (width c' * 3 + 3) 4 * 4) (height c' - 1) False
                (w\<lparr>bitmap := fseek (big_to_little_endian hdr 10 4) (bitmap w)\<rparr>))
             [0, 1, 2, 3, 4, 5, 6] w1)"
    by (rule generate_raster_colour [OF assms])
qed

theorem colour_separation_witness:
  "colour_pixel 1 250 20 40 = 225 \<and>
   colour_pixel 0 250 20 40 = 0 \<and>
   load_row (colour_config\<lparr>width := 1, height := 3\<rparr>) 1 1 4 1
     \<lparr>bitmap = \<lparr>contents = three_pixels, offset = 58\<rparr>, stderr = []\<rparr> =
     Some (Inr ([225], \<lparr>bitmap = \<lparr>contents = three_pixels, offset = 62\<rparr>, stderr = []\<rparr>)) \<and>
   raster_rows (colour_config\<lparr>width := 1, height := 3\<rparr>) 0 0 1 1 4 1 False
     \<lparr>bitmap = \<lparr>contents = three_pixels, offset = 58\<rparr>, stderr = []\<rparr> =
     Some (True,
           bytes_of (ESC # ''*p1Y'') @ bytes_of (ESC # ''*p0X'') @ bytes_of (ESC # ''*b1A'') @
           bytes_of (ESC # ''*b8W'') @ [0, 35, 0x80, 0x80, 0x80, 0x80, 0x80, 0x80],
           \<lparr>bitmap = \<lparr>contents = three_pixels, offset = 66\<rparr>, stderr = []\<rparr>) \<and>
   generate_raster no_header colour_config
     \<lparr>bitmap = \<lparr>contents = three_pixels, offset = 0\<rparr>, stderr = []\<rparr> =
     Some (True,
           bytes_of (ESC # ''*r0F'') @ bytes_of (ESC # ''&y100P'') @ bytes_of (ESC # ''&z100S'') @
           bytes_of (ESC # ''*r3T'') @ bytes_of (ESC # ''*r1S'') @ bytes_of (ESC # ''*b7M'') @
           bytes_of (ESC # ''&y1O'') @ bytes_of (ESC # ''*r1A'') @
           (bytes_of (ESC # ''*p0Y'') @ bytes_of (ESC # ''*p0X'') @ bytes_of (ESC # ''*b1A'') @
            bytes_of (ESC # ''*b8W'') @ [0, 36, 0x80, 0x80, 0x80, 0x80, 0x80, 0x80]) @
           (bytes_of (ESC # ''*p1Y'') @ bytes_of (ESC # ''*p0X'') @ bytes_of (ESC # ''*b1A'') @
            bytes_of (ESC # ''*b8W'') @ [0, 35, 0x80, 0x80, 0x80, 0x80, 0x80, 0x80]) @
           bytes_of (ESC # ''*rC'') @ [26, 4],
           colour_config\<lparr>width := 1, height := 3\<rparr>,
           \<lparr>bitmap = \<lparr>contents = three_pixels, offset = 66\<rparr>, stderr = []\<rparr>)"
proof -
  let ?w = "\<lparr>bitmap = \<lparr>contents = three_pixels, offset = 0\<rparr>, stderr = []\<rparr>"
  let ?w54 = "\<lparr>bitmap = \<lparr>contents = three_pixels, offset = 54\<rparr>, stderr = []\<rparr>"
  let ?w58 = "\<lparr>bitmap = \<lparr>contents = three_pixels, offset = 58\<rparr>, stderr = []\<rparr>"
  let ?w62 = "\<lparr>bitmap = \<lparr>contents = three_pixels, offset = 62\<rparr>, stderr = []\<rparr>"
  let ?c = "colour_config\<lparr>width := 1, height := 3\<rparr>"
  let ?hdr = "fst (read_header no_header ?w)"
  note block = colour_separation [OF colour_config_fields(1), where header = no_header
      and w = ?w and hdr = ?hdr and ?w1.0 = ?w54 and c' = ?c
      and pass = 0 and ?f0.0 = 250 and ?f1.0 = 20 and ?f2.0 = 40]
  note line = colour_separation [OF three_pixels_mode(1), where pass = 1 and ?f0.0 = 250
      and ?f1.0 = 20 and ?f2.0 = 40 and d = 4 and h = 1 and y = 1
      and data = "[250, 20, 40, 0]" and w = ?w58 and row = "[225]" and w' = ?w62
      and ?x0.0 = 0 and ?y0.0 = 0 and dir = False]
  have p1: "colour_pixel 1 250 20 40 = 225"
    using line [THEN conjunct1]
    by (simp add: spec_mask_def spec_luminance_def spec_saturated_def)
  have p0: "colour_pixel 0 250 20 40 = 0"
    using block [THEN conjunct1]
    by (simp add: spec_mask_def spec_luminance_def spec_saturated_def)
  have pre: "\<not> too_wide 4 \<and> \<not> colour_reads_past_buf 4 \<and>
      [250, 20, 40, 0] = take (nat 4) (drop (offset (bitmap ?w58)) (contents (bitmap ?w58))) \<and>
      int (length [250, 20, 40, 0 :: byte]) = 4 \<and> (0::int) \<le> 1 \<and> (3::int) * 1 \<le> 4"
    by (simp add: too_wide_def colour_reads_past_buf_def sizeof_buf_def three_pixels_rows)
  have row: "load_row ?c 1 1 4 1 ?w58 = Some (Inr ([225], ?w62))"
    using line [THEN conjunct2, THEN conjunct1, THEN mp, OF pre]
    by (simp add: p1 numeral_2_eq_2)
  have "(0::int) \<le> 1 \<and> load_row ?c 1 1 4 1 ?w58 = Some (Inr ([225], ?w62))"
    using row by simp
  from line [THEN conjunct2, THEN conjunct2, THEN conjunct1, THEN mp, OF this]
  have rows: "raster_rows ?c 0 0 1 1 4 1 False ?w58 =
     Some (True,
           bytes_of (ESC # ''*p1Y'') @ bytes_of (ESC # ''*p0X'') @ bytes_of (ESC # ''*b1A'') @
           bytes_of (ESC # ''*b8W'') @ [0, 35, 0x80, 0x80, 0x80, 0x80, 0x80, 0x80],
           \<lparr>bitmap = \<lparr>contents = three_pixels, offset = 66\<rparr>, stderr = []\<rparr>)"
    by (simp add: three_pixels_mode(3) three_pixels_scale
        emit_line_single [OF _ three_pixels_mode(2)] three_pixels_y0
        written_before_def fmt_d_0 fmt_d_1_8)
  have "raster_repeat colour_config = 1 \<and> x_repeat colour_config = 1 \<and>
      y_repeat colour_config = 1 \<and> read_header no_header ?w = (?hdr, ?w54) \<and>
      ?c = reload_size ?hdr colour_config \<and> 0 < width ?c \<and> 0 < height ?c"
    by (simp add: colour_config_fields three_pixels_reload three_pixels_world [symmetric])
  from block [THEN conjunct2, THEN conjunct2, THEN conjunct2, THEN mp, OF this]
  have gen: "generate_raster no_header colour_config ?w =
     Some (True,
           bytes_of (ESC # ''*r0F'') @ bytes_of (ESC # ''&y100P'') @ bytes_of (ESC # ''&z100S'') @
           bytes_of (ESC # ''*r3T'') @ bytes_of (ESC # ''*r1S'') @ bytes_of (ESC # ''*b7M'') @
           bytes_of (ESC # ''&y1O'') @ bytes_of (ESC # ''*r1A'') @
           (bytes_of (ESC # ''*p0Y'') @ bytes_of (ESC # ''*p0X'') @ bytes_of (ESC # ''*b1A'') @
            bytes_of (ESC # ''*b8W'') @ [0, 36, 0x80, 0x80, 0x80, 0x80, 0x80, 0x80]) @
           (bytes_of (ESC # ''*p1Y'') @ bytes_of (ESC # ''*p0X'') @ bytes_of (ESC # ''*b1A'') @
            bytes_of (ESC # ''*b8W'') @ [0, 35, 0x80, 0x80, 0x80, 0x80, 0x80, 0x80]) @
           bytes_of (ESC # ''*rC'') @ [26, 4],
           ?c, \<lparr>bitmap = \<lparr>contents = three_pixels, offset = 66\<rparr>, stderr = []\<rparr>)"
    by (simp add: three_pixels_header colour_config_fields cdiv_nonneg three_pixels_passes
        fmt_d_100 fmt_d_1_8 fmt_d_3 raster_end_def del: passes_in_order.simps)
  from p1 p0 row rows gen show ?thesis by (intro conjI)
qed

text \<open>
  Claim C5 as stated has the seven passes stand for the seven non-zero mask values, each
  pixel having a pass of its own. In the bitmap of three pixels the pixel \<open>(10, 20, 30)\<close>
  has no saturated channel, so its mask is zero; yet pass 0, the first of the seven,
  carries its inverted luminance \<open>255 - 20\<close>, and its line, with the byte
  \<open>235 * 40 / 255 = 36\<close>, is the first of the raster block. The pixel
  \<open>(250, 250, 250)\<close> has the mask 7: there is no pass 7, its byte is blank whatever the
  pass, and the raster block has no line for its row \<open>y = 2\<close>.
\<close>

theorem colour_separation_counterexample:
  "spec_mask 10 20 30 = 0 \<and> colour_pixel 0 10 20 30 = 235 \<and>
   spec_mask 250 250 250 = 7 \<and> colour_pixel 7 250 250 250 = 0 \<and>
   raster_passes_count colour_config = 7 \<and>
   generate_raster no_header colour_config
     \<lparr>bitmap = \<lparr>contents = three_pixels, offset = 0\<rparr>, stderr = []\<rparr> =
     Some (True,
           bytes_of (ESC # ''*r0F'') @ bytes_of (ESC # ''&y100P'') @ bytes_of (ESC # ''&z100S'') @
           bytes_of (ESC # ''*r3T'') @ bytes_of (ESC # ''*r1S'') @ bytes_of (ESC # ''*b7M'') @
           bytes_of (ESC # ''&y1O'') @ bytes_of (ESC # ''*r1A'') @
           (bytes_of (ESC # ''*p0Y'') @ bytes_of (ESC # ''*p0X'') @ bytes_of (ESC # ''*b1A'') @
            bytes_of (ESC # ''*b8W'') @ [0, 36, 0x80, 0x80, 0x80, 0x80, 0x80, 0x80]) @
           (bytes_of (ESC # ''*p1Y'') @ bytes_of (ESC # ''*p0X'') @ bytes_of (ESC # ''*b1A'') @
            bytes_of (ESC # ''*b8W'') @ [0, 35, 0x80, 0x80, 0x80, 0x80, 0x80, 0x80]) @
           bytes_of (ESC # ''*rC'') @ [26, 4],
           colour_config\<lparr>width := 1, height := 3\<rparr>,
           \<lparr>bitmap = \<lparr>contents = three_pixels, offset = 66\<rparr>, stderr = []\<rparr>)"
proof -
  have "spec_mask 10 20 30 = 0" "colour_pixel 0 10 20 30 = 235"
    "spec_mask 250 250 250 = 7" "colour_pixel 7 250 250 250 = 0"
    "raster_passes_count colour_config = 7"
    by (simp_all add: colour_pixel_spec spec_separated_def spec_mask_def spec_luminance_def
        spec_saturated_def raster_passes_count_def colour_config_def)
  with three_pixels_raster show ?thesis by (intro conjI)
qed

subsection \<open>The vector encoder\<close>

lemma vector_tiles_x_done: "offx < 0 \<Longrightarrow> vector_tiles_x c basex y0 indet file offx s = Some s"
  by (subst vector_tiles_x.simps) simp

lemma vector_tiles_x_step:
  "0 \<le> offx \<Longrightarrow>
   vector_tiles_x c basex y0 indet file offx s =
     Option.bind (vector_read c (basex + offx) y0 indet file (s\<lparr>passstart := False\<rparr>))
       (vector_tiles_x c basex y0 indet file (offx - width c))"
  by (subst vector_tiles_x.simps) simp

lemma vector_tiles_y_done: "offy < 0 \<Longrightarrow> vector_tiles_y c basex basey indet file offy s = Some s"
  by (subst vector_tiles_y.simps) simp

lemma vector_tiles_y_step:
  "0 \<le> offy \<Longrightarrow>
   vector_tiles_y c basex basey indet file offy s =
     Option.bind (vector_tiles_x c basex (basey + offy) indet file (width c * (x_repeat c - 1)) s)
       (vector_tiles_y c basex basey indet file (offy - height c))"
  by (subst vector_tiles_y.simps) simp

lemma bind_Some_right: "Option.bind m Some = m"
  by (cases m) simp_all

lemma generate_vector_single:
  assumes "x_repeat c = 1" "y_repeat c = 1" "0 < width c" "0 < height c"
  shows "generate_vector indet c file =
           map_option (\<lambda>s. (True, vout (vector_finish s)))
             (vector_read c (base_origin (x_center c) (width c) (resolution c))
                (base_origin (y_center c) (height c) (resolution c)) indet file
                (vector_start\<lparr>passstart := False\<rparr>))"
proof -
  have x: "vector_tiles_x c bx y0 indet file 0 s = vector_read c bx y0 indet file (s\<lparr>passstart := False\<rparr>)"
    for bx y0 s
  proof -
    have "vector_tiles_x c bx y0 indet file (0 - width c) = Some"
      using assms(3) by (intro ext vector_tiles_x_done) simp
    then show ?thesis
      by (simp add: vector_tiles_x_step bind_Some_right)
  qed
  have y: "vector_tiles_y c bx by indet file 0 s = vector_read c bx by indet file (s\<lparr>passstart := False\<rparr>)"
    for bx "by" s
  proof -
    have "vector_tiles_y c bx by indet file (0 - height c) = Some"
      using assms(4) by (intro ext vector_tiles_y_done) simp
    then show ?thesis
      using assms(1) by (simp add: vector_tiles_y_step bind_Some_right x)
  qed
  show ?thesis
    using assms(1,2) by (simp add: generate_vector_def y)
qed

lemmas vector_eval =
  vector_read.simps fgets_def vector_line_def isalpha_def first_char_def cstring_def
  preamble_def cmd_M_def cmd_C_def cmd_P_def cmd_L_def compensate_def vput_def
  sscanf_d_def sscanf_d_d_def scan_int_def stored_int_small scan_sign_def isspace_def isdigit_def digits_value_def
  vector_start_def vector_finish_def sizeof_buf_def base_origin_def Let_def

text \<open>The two numbers of a command are stored in 32 bits each.\<close>

lemma sscanf_d_d_wraps: "sscanf_d_d ''4294967297,5'' = (Some 1, Some 5)"
  by (simp add: sscanf_d_d_def scan_int_def scan_sign_def isspace_def isdigit_def
      digits_value_def stored_int_wraps stored_int_small)

lemma vector_sequence_output:
  "generate_vector indet (default_config\<lparr>vector_speed := 100, vector_power := vp, vector_freq := vf\<rparr>)
     (''M0,0'' @ [LF] @ ''P50'' @ [LF] @ ''L100,0'' @ [LF] @ ''C'' @ [LF]) =
   Some (True,
     bytes_of (''IN;'' @ ''XR'' @ fmt_0d 4 vf @ '';'' @ ''YP'' @ fmt_0d 3 vp @ '';'' @ ''ZS100;'') @
     bytes_of ('';YP'' @ fmt_0d 3 (cdiv (50 * vp + 50) 100) @ '';'') @
     bytes_of ''PU0,0'' @
     bytes_of '';PD'' @ bytes_of ''0,100'' @
     bytes_of '',0,0'' @
     bytes_of '';'' @ bytes_of (ESC # ''%0B'') @ bytes_of (ESC # ''%1BPU''))"
  by (simp add: generate_vector_single default_config_def vector_eval LF_def bytes_of_def
      cdiv_0 fmt_d_0 fmt_d_100 fmt_0d_3_100)

text \<open>
  Claim C9, as amended. For the commands \<open>M0,0\<close>, \<open>P50\<close>, \<open>L100,0\<close>, \<open>C\<close> with vector speed
  100 (no energy compensation), whatever the vector power and frequency, the encoder
  writes, in this order: the settings of the tile; the power setter at 50 per cent of
  the vector power, \<open>(50 * power + 50) / 100\<close>; the pen-up move to \<open>0,0\<close>, which the \<open>M\<close>
  command only records and the \<open>L\<close> command writes; the pen-down draw \<open>PD0,100\<close>, the
  numbers of the \<open>L\<close> command being read as \<open>y\<close> then \<open>x\<close> and written as \<open>x,y\<close>; the close
  back to \<open>0,0\<close> chained to it; and the closing sequence.
\<close>

theorem vector_sequence_emitted:
  "generate_vector indet (default_config\<lparr>vector_speed := 100, vector_power := vp, vector_freq := vf\<rparr>)
     (''M0,0'' @ [LF] @ ''P50'' @ [LF] @ ''L100,0'' @ [LF] @ ''C'' @ [LF]) =
   Some (True,
     bytes_of (''IN;'' @ ''XR'' @ fmt_0d 4 vf @ '';'' @ ''YP'' @ fmt_0d 3 vp @ '';'' @ ''ZS100;'') @
     bytes_of ('';YP'' @ fmt_0d 3 (cdiv (50 * vp + 50) 100) @ '';'') @
     bytes_of ''PU0,0'' @
     bytes_of '';PD'' @ bytes_of ''0,100'' @
     bytes_of '',0,0'' @
     bytes_of '';'' @ bytes_of (ESC # ''%0B'') @ bytes_of (ESC # ''%1BPU''))"
  by (rule vector_sequence_output)

text \<open>
  Claim C9 as stated puts the pen-up move before the power setter and has the line drawn
  to \<open>100,0\<close>. In the bytes written for the default vector power 50 the power setter
  \<open>;YP025;\<close> stands at offset 22 and the pen-up move \<open>PU0,0\<close> after it, at offset 29, and
  \<open>PD100,0\<close> does not occur.
\<close>

theorem vector_sequence_counterexample:
  "map_option
     (\<lambda>r. (find_bytes (bytes_of '';YP025;'') (snd r), find_bytes (bytes_of ''PU0,0'') (snd r),
           find_bytes (bytes_of ''PD100,0'') (snd r)))
     (generate_vector no_indet (default_config\<lparr>vector_speed := 100\<rparr>)
        (''M0,0'' @ [LF] @ ''P50'' @ [LF] @ ''L100,0'' @ [LF] @ ''C'' @ [LF])) =
   Some (Some 22, Some 29, None)"
proof -
  have "generate_vector no_indet (default_config\<lparr>vector_speed := 100\<rparr>)
          (''M0,0'' @ [LF] @ ''P50'' @ [LF] @ ''L100,0'' @ [LF] @ ''C'' @ [LF]) =
        Some (True, bytes_of (''IN;XR5000;YP050;ZS100;'' @ '';YP025;'' @ ''PU0,0'' @ '';PD'' @
                     ''0,100'' @ '',0,0'' @ '';'' @ ESC # ''%0B'' @ ESC # ''%1BPU''))"
    using vector_sequence_output [where indet = no_indet and vp = 50 and vf = 5000]
    by (simp add: default_config_def bytes_of_def fmt_eval cdiv_nonneg)
  then show ?thesis
    by (simp add: bytes_of_def ESC_def)
qed

text \<open>
  Claim C2. When a \<open>P\<close> command changes the power and the vector speed is below 100, the
  encoder takes \<open>r\<close> as the least of \<open>10000 / requested power\<close>, \<open>10000 / speed\<close> and
  \<open>500000 / frequency\<close> and rescales power, speed and frequency by \<open>r / 100\<close>.

  With the default settings (power 50, speed 30, frequency 5000) and the command \<open>P50\<close>,
  \<open>r\<close> is 100 and the rescaled values are power 25, speed 30, frequency 5000. The code
  computes the frequency from the rescaled speed, \<open>efreq = (50 + espeed * r) / 100\<close>, and
  writes \<open>XR0030\<close>.
\<close>

theorem compensation_frequency:
  "spec_compensate default_config 50 25 = (25, 30, 5000) \<and>
   compensate default_config 50 25 = Some (25, 30, 30) \<and>
   generate_vector no_indet default_config (''P50'' @ [LF]) =
     Some (True, bytes_of (''IN;XR5000;YP050;ZS030;'' @ '';ZS030;XR0030;'' @ '';YP025;'' @
                  ESC # ''%0B'' @ ESC # ''%1BPU''))"
proof (intro conjI)
  show "spec_compensate default_config 50 25 = (25, 30, 5000)"
    by (simp add: spec_compensate_def default_config_def cdiv_nonneg)
  show "compensate default_config 50 25 = Some (25, 30, 30)"
    by (simp add: compensate_def default_config_def cdiv_nonneg)
  show "generate_vector no_indet default_config (''P50'' @ [LF]) =
     Some (True, bytes_of (''IN;XR5000;YP050;ZS030;'' @ '';ZS030;XR0030;'' @ '';YP025;'' @
                  ESC # ''%0B'' @ ESC # ''%1BPU''))"
    by (simp add: generate_vector_single default_config_def vector_eval LF_def bytes_of_def
        fmt_eval cdiv_nonneg)
qed

subsection \<open>When the vector encoder returns\<close>

lemma compensate_total: "vector_freq c \<noteq> 0 \<Longrightarrow> compensate c x epower \<noteq> None"
  by (simp add: compensate_def Let_def)

lemma cmd_P_total: "vector_freq c \<noteq> 0 \<Longrightarrow> cmd_P c args s \<noteq> None"
proof -
  assume f: "vector_freq c \<noteq> 0"
  show ?thesis
  proof (cases "sscanf_d args")
    case None
    then show ?thesis by (simp add: cmd_P_def)
  next
    case (Some x)
    obtain r where "compensate c x (cdiv (x * vector_power c + 50) 100) = Some r"
      using compensate_total [OF f, of x "cdiv (x * vector_power c + 50) 100"] by auto
    with Some show ?thesis
      by (auto simp: cmd_P_def Let_def split: prod.splits)
  qed
qed

lemma vector_line_total: "vector_freq c \<noteq> 0 \<Longrightarrow> vector_line c x0 y0 indet ln s \<noteq> None"
proof -
  assume "vector_freq c \<noteq> 0"
  then have "cmd_P c (cstring (tl ln)) (preamble c s) \<noteq> None" by (rule cmd_P_total)
  then obtain r where "cmd_P c (cstring (tl ln)) (preamble c s) = Some r" by auto
  then show ?thesis by (simp add: vector_line_def)
qed

lemma vector_read_total:
  "vector_freq c \<noteq> 0 \<Longrightarrow> vector_read c x0 y0 indet rest s \<noteq> None"
proof (induction c x0 y0 indet rest s rule: vector_read.induct)
  case (1 c x0 y0 indet rest s)
  show ?case
  proof (cases "fgets sizeof_buf rest")
    case None
    then show ?thesis by (subst vector_read.simps) simp
  next
    case (Some lr)
    obtain ln rest' where lr: "lr = (ln, rest')" by (cases lr) auto
    let ?s = "s\<lparr>nread := Suc (nread s)\<rparr>"
    have "vector_line c x0 y0 (indet (nread s)) ln ?s \<noteq> None"
      by (rule vector_line_total [OF "1.prems"])
    then obtain s' where vl: "vector_line c x0 y0 (indet (nread s)) ln ?s = Some s'"
      by auto
    show ?thesis
    proof (cases "isalpha (first_char ln) \<and> first_char ln = CHR ''X''")
      case True
      with Some lr vl show ?thesis by (subst vector_read.simps) (simp add: isalpha_def)
    next
      case False
      from "1.IH" [OF Some lr [symmetric] vl False "1.prems"]
      have "vector_read c x0 y0 indet rest' s' \<noteq> None" .
      with Some lr vl False show ?thesis by (subst vector_read.simps) simp
    qed
  qed
qed

lemma vector_tiles_x_total:
  "0 < width c \<Longrightarrow> vector_freq c \<noteq> 0 \<Longrightarrow> vector_tiles_x c basex y0 indet file offx s \<noteq> None"
proof (induction "nat (offx + 1)" arbitrary: offx s rule: less_induct)
  case less
  show ?case
  proof (cases "0 \<le> offx")
    case False
    then show ?thesis by (subst vector_tiles_x.simps) simp
  next
    case True
    let ?r = "vector_read c (basex + offx) y0 indet file (s\<lparr>passstart := False\<rparr>)"
    have "?r \<noteq> None" by (rule vector_read_total [OF less.prems(2)])
    then obtain s' where r: "?r = Some s'" by auto
    have "nat (offx - width c + 1) < nat (offx + 1)"
      using True less.prems(1) by simp
    from less.hyps [OF this less.prems]
    have "vector_tiles_x c basex y0 indet file (offx - width c) s' \<noteq> None" .
    with True r show ?thesis by (subst vector_tiles_x.simps) simp
  qed
qed

lemma vector_tiles_y_total:
  "0 < width c \<Longrightarrow> 0 < height c \<Longrightarrow> vector_freq c \<noteq> 0 \<Longrightarrow>
   vector_tiles_y c basex basey indet file offy s \<noteq> None"
proof (induction "nat (offy + 1)" arbitrary: offy s rule: less_induct)
  case less
  show ?case
  proof (cases "0 \<le> offy")
    case False
    then show ?thesis by (subst vector_tiles_y.simps) simp
  next
    case True
    let ?r = "vector_tiles_x c basex (basey + offy) indet file (width c * (x_repeat c - 1)) s"
    have "?r \<noteq> None" by (rule vector_tiles_x_total [OF less.prems(1,3)])
    then obtain s' where r: "?r = Some s'" by auto
    have "nat (offy - height c + 1) < nat (offy + 1)"
      using True less.prems(2) by simp
    from less.hyps [OF this less.prems]
    have "vector_tiles_y c basex basey indet file (offy - height c) s' \<noteq> None" .
    with True r show ?thesis by (subst vector_tiles_y.simps) simp
  qed
qed

lemma generate_vector_total:
  "0 < width c \<Longrightarrow> 0 < height c \<Longrightarrow> vector_freq c \<noteq> 0 \<Longrightarrow>
   generate_vector indet c file \<noteq> None"
  by (simp add: generate_vector_def vector_tiles_y_total)


subsection \<open>The job composer\<close>





subsection \<open>Delivery\<close>

lemma connect_loop_done: "\<not> i < timeout \<Longrightarrow> connect_loop net timeout i sd = (i, sd, 0, [])"
  by (subst connect_loop.simps) simp

lemma connect_loop_first:
  "0 < timeout \<Longrightarrow> gai_error (attempts net 0) = 0 \<Longrightarrow>
   try_candidates sd (candidates (attempts net 0)) = (sd', ms) \<Longrightarrow> 0 \<le> sd' \<Longrightarrow>
   connect_loop net timeout 0 sd = (0, sd', 0, ms)"
  by (subst connect_loop.simps) simp

text \<open>An attempt fails when the lookup fails or no address both gives a socket and
  accepts the connection.\<close>

lemma try_candidates_fail:
  "sd < 0 \<Longrightarrow> list_all (\<lambda>a. \<not> (0 \<le> socket_result a \<and> connect_ok a)) as \<Longrightarrow>
   fst (try_candidates sd as) < 0"
proof (induction as arbitrary: sd)
  case Nil
  then show ?case by simp
next
  case (Cons a as)
  from Cons.prems have rest: "list_all (\<lambda>a. \<not> (0 \<le> socket_result a \<and> connect_ok a)) as"
    and this_one: "\<not> (0 \<le> socket_result a \<and> connect_ok a)"
    by simp_all
  show ?case
  proof (cases "0 \<le> socket_result a")
    case True
    with this_one have "\<not> connect_ok a" by simp
    moreover have "fst (try_candidates (- 1) as) < 0"
      by (rule Cons.IH [OF _ rest]) simp
    ultimately show ?thesis
      using True by (auto simp: Let_def split: prod.splits)
  next
    case False
    then have "fst (try_candidates (socket_result a) as) < 0"
      by (intro Cons.IH [OF _ rest]) simp
    then show ?thesis
      using False by (auto simp: Let_def split: prod.splits)
  qed
qed

lemma connect_loop_exhausts:
  "\<forall>k. gai_error (attempts net k) \<noteq> 0 \<or>
       list_all (\<lambda>a. \<not> (0 \<le> socket_result a \<and> connect_ok a)) (candidates (attempts net k)) \<Longrightarrow>
   sd < 0 \<Longrightarrow> i \<le> timeout \<Longrightarrow>
   fst (connect_loop net timeout i sd) = timeout \<and>
   fst (snd (connect_loop net timeout i sd)) < 0 \<and>
   fst (snd (snd (connect_loop net timeout i sd))) = nat (timeout - i)"
proof (induction net timeout i sd rule: connect_loop.induct)
  case (1 net timeout i sd)
  note fail = "1.prems"(1) and sd = "1.prems"(2) and le = "1.prems"(3)
  show ?case
  proof (cases "i < timeout")
    case False
    with le sd show ?thesis by (simp add: connect_loop_done)
  next
    case True
    obtain sd' ms where t:
      "(if gai_error (attempts net (nat i)) = 0
        then try_candidates sd (candidates (attempts net (nat i))) else (sd, [])) = (sd', ms)"
      by (cases "if gai_error (attempts net (nat i)) = 0
        then try_candidates sd (candidates (attempts net (nat i))) else (sd, [])") auto
    have neg: "sd' < 0"
    proof (cases "gai_error (attempts net (nat i)) = 0")
      case True
      with fail
      have "list_all (\<lambda>a. \<not> (0 \<le> socket_result a \<and> connect_ok a))
              (candidates (attempts net (nat i)))"
        by auto
      with sd have "fst (try_candidates sd (candidates (attempts net (nat i)))) < 0"
        by (rule try_candidates_fail)
      with t True show ?thesis by simp
    next
      case False
      with t sd show ?thesis by simp
    qed
    then have n0: "\<not> 0 \<le> sd'" by simp
    have ih: "fst (connect_loop net timeout (i + 1) sd') = timeout \<and>
         fst (snd (connect_loop net timeout (i + 1) sd')) < 0 \<and>
         fst (snd (snd (connect_loop net timeout (i + 1) sd'))) = nat (timeout - (i + 1))"
      using "1.IH" [OF True t [symmetric] n0 fail neg] True by simp
    have "connect_loop net timeout i sd =
            (case connect_loop net timeout (i + 1) sd' of
               (i', sd'', sleeps, ms') \<Rightarrow> (i', sd'', Suc sleeps, ms @ ms'))"
      using True t n0 by (subst connect_loop.simps) simp
    with ih True show ?thesis
      by (auto split: prod.splits simp: Suc_nat_eq_nat_zadd1 nat_diff_distrib)
  qed
qed

lemma printer_connect_exhausts:
  assumes "\<forall>k. gai_error (attempts net k) \<noteq> 0 \<or>
      list_all (\<lambda>a. \<not> (0 \<le> socket_result a \<and> connect_ok a)) (candidates (attempts net k))"
    and "0 \<le> timeout"
  shows "fst (printer_connect net host timeout) = - 1 \<and>
         fst (snd (printer_connect net host timeout)) = nat timeout \<and>
         (\<exists>ms. snd (snd (printer_connect net host timeout)) =
                 ms @ [Printed (''Cannot connect to '' @ host @ [LF])])"
  using connect_loop_exhausts [OF assms(1), of "- 1" 0 timeout] assms(2)
  by (auto simp: printer_connect_def split: prod.splits)

text \<open>A descriptor that is not valid: nothing is written, and \<open>lpdres\<close> keeps its value.\<close>

lemma sock_write_closed: "descriptor ss < 0 \<Longrightarrow> sock_write data ss = ss"
  by (simp add: sock_write_def)

lemma sock_read_closed: "descriptor ss < 0 \<Longrightarrow> sock_read net ss = ss"
  by (simp add: sock_read_def)

lemma foldl_sock_write_closed:
  "descriptor ss < 0 \<Longrightarrow> foldl (\<lambda>s ch. sock_write ch s) ss chunks = ss"
  by (induction chunks) (simp_all add: sock_write_closed)

lemma printer_send_unreachable:
  assumes fail: "\<forall>k. gai_error (attempts net k) \<noteq> 0 \<or>
      list_all (\<lambda>a. \<not> (0 \<le> socket_result a \<and> connect_ok a)) (candidates (attempts net k))"
    and zero: "lpdres_init net = 0" and stat: "fstat_ok net"
  shows "fst (printer_send net c host job) \<and>
         written (snd (printer_send net c host job)) = [] \<and>
         slept (snd (printer_send net c host job)) = 300 \<and>
         descriptor (snd (printer_send net c host job)) = - 1"
proof -
  obtain sd sleeps ms where pc: "printer_connect net host PRINTER_MAX_WAIT = (sd, sleeps, ms)"
    by (cases "printer_connect net host PRINTER_MAX_WAIT") auto
  with printer_connect_exhausts [OF fail, of PRINTER_MAX_WAIT host]
  have sd: "sd = - 1" and sl: "sleeps = 300"
    by (simp_all add: PRINTER_MAX_WAIT_def)
  show ?thesis
    using zero stat
    by (simp add: printer_send_def pc sd sl Let_def send_control_def send_data_def
        sock_write_closed sock_read_closed foldl_sock_write_closed printer_disconnect_def)
qed

lemma printer_send_unreachable_fails:
  assumes fail: "\<forall>k. gai_error (attempts net k) \<noteq> 0 \<or>
      list_all (\<lambda>a. \<not> (0 \<le> socket_result a \<and> connect_ok a)) (candidates (attempts net k))"
    and nonzero: "lpdres_init net \<noteq> 0"
  shows "\<not> fst (printer_send net c host job) \<and>
         written (snd (printer_send net c host job)) = []"
proof -
  obtain sd sleeps ms where pc: "printer_connect net host PRINTER_MAX_WAIT = (sd, sleeps, ms)"
    by (cases "printer_connect net host PRINTER_MAX_WAIT") auto
  with printer_connect_exhausts [OF fail, of PRINTER_MAX_WAIT host]
  have sd: "sd = - 1"
    by (simp_all add: PRINTER_MAX_WAIT_def)
  show ?thesis
    using nonzero
    by (simp add: printer_send_def pc sd Let_def sock_write_closed sock_read_closed
        bad_response_def)
qed

lemma printer_send_refused:
  assumes "printer_connect net host PRINTER_MAX_WAIT = (sd, sleeps, ms)" and "0 \<le> sd"
    and "acks net 0 = Some b" and "b \<noteq> 0"
  shows "printer_send net c host job =
           (False,
            \<lparr> descriptor = sd, written = [queue_command c], reads = 1, lpdres = b,
              said = ms @ [Printed (''Bad response from '' @ host @ '', '' @ dec_nat (unat b) @ [LF])],
              slept = sleeps \<rparr>)"
  using assms
  by (simp add: printer_send_def Let_def sock_write_def sock_read_def bad_response_def)

lemma dead_printer_fails:
  "\<forall>k. gai_error (attempts dead_printer k) \<noteq> 0 \<or>
      list_all (\<lambda>a. \<not> (0 \<le> socket_result a \<and> connect_ok a)) (candidates (attempts dead_printer k))"
  by (simp add: dead_printer_def good_printer_def listening_def)

lemma good_printer_connects:
  "attempts net = attempts good_printer \<Longrightarrow>
   printer_connect net host PRINTER_MAX_WAIT =
     (3, 0, [Printed (''trying to connect to 192.168.1.4:515'' @ [LF])])"
  by (simp add: printer_connect_def PRINTER_MAX_WAIT_def good_printer_def listening_def
      connect_loop_first [where sd' = 3 and ms = "[Printed (''trying to connect to 192.168.1.4:515'' @ [LF])]"])

subsection \<open>A printer that accepts everything\<close>

lemma sock_write_open:
  "0 \<le> descriptor ss \<Longrightarrow> sock_write data ss = ss\<lparr>written := written ss @ [data]\<rparr>"
  by (simp add: sock_write_def)

lemma sock_read_open:
  "0 \<le> descriptor ss \<Longrightarrow> acks net (reads ss) = Some b \<Longrightarrow>
   sock_read net ss = ss\<lparr>reads := Suc (reads ss), lpdres := b\<rparr>"
  by (simp add: sock_read_def)

lemma foldl_sock_write_open:
  "0 \<le> descriptor ss \<Longrightarrow>
   foldl (\<lambda>s ch. sock_write ch s) ss chunks = ss\<lparr>written := written ss @ chunks\<rparr>"
proof (induction chunks arbitrary: ss)
  case Nil
  then show ?case by simp
next
  case (Cons ch chunks)
  then show ?case by (simp add: sock_write_open)
qed

lemma concat_file_chunks: "concat (file_chunks xs) = xs"
proof (induction xs rule: file_chunks.induct)
  case (1 xs)
  show ?case
  proof (cases "xs = []")
    case True
    then show ?thesis by (subst file_chunks.simps) simp
  next
    case False
    with 1 show ?thesis by (subst file_chunks.simps) simp
  qed
qed

lemma printer_send_accepted:
  assumes "printer_connect net host PRINTER_MAX_WAIT = (sd, sleeps, ms)" and "0 \<le> sd"
    and "\<forall>k. acks net k = Some 0" and "fstat_ok net"
  shows "fst (printer_send net c host job) \<and>
         concat (drop 4 (written (snd (printer_send net c host job)))) = job \<and>
         take 1 (written (snd (printer_send net c host job))) = [queue_command c]"
  using assms
  by (simp add: printer_send_def send_control_def send_data_def Let_def sock_write_open
      sock_read_open printer_disconnect_def foldl_sock_write_open concat_file_chunks)

subsection \<open>The two bitmap files\<close>

lemma length_header_8x1: "length header_8x1 = 54"
  by (simp add: header_8x1_def)

lemma short_header_fields:
  "big_to_little_endian (fst (read_header no_header \<lparr>bitmap = \<lparr>contents = short_bitmap, offset = 0\<rparr>, stderr = []\<rparr>)) 18 4 = 8"
  "big_to_little_endian (fst (read_header no_header \<lparr>bitmap = \<lparr>contents = short_bitmap, offset = 0\<rparr>, stderr = []\<rparr>)) 22 4 = 1"
  "big_to_little_endian (fst (read_header no_header \<lparr>bitmap = \<lparr>contents = short_bitmap, offset = 0\<rparr>, stderr = []\<rparr>)) 10 4 = 54"
  by code_simp+


lemma short_header_world:
  "snd (read_header no_header \<lparr>bitmap = \<lparr>contents = short_bitmap, offset = 0\<rparr>, stderr = []\<rparr>) =
   \<lparr>bitmap = \<lparr>contents = short_bitmap, offset = 54\<rparr>, stderr = []\<rparr>"
  by (simp add: read_header_def fread_def short_bitmap_def length_header_8x1)

lemma short_reload:
  "reload_size (fst (read_header no_header \<lparr>bitmap = \<lparr>contents = short_bitmap, offset = 0\<rparr>, stderr = []\<rparr>)) default_config =
   default_config\<lparr>width := 8, height := 1\<rparr>"
  by (simp add: reload_size_def short_header_fields)


lemma row_8x1:
  "row_bytes (default_config\<lparr>width := 8, height := 1\<rparr>) = 1"
  "row_stride (default_config\<lparr>width := 8, height := 1\<rparr>) = 4"
  by (simp_all add: row_bytes_def row_stride_def colour_or_grey_def default_config_def cdiv_nonneg)

lemma short_row_fails:
  "load_row (default_config\<lparr>width := 8, height := 1\<rparr>) 0 1 4 0
     \<lparr>bitmap = \<lparr>contents = short_bitmap, offset = 54\<rparr>, stderr = []\<rparr> =
   Some (Inl \<lparr>bitmap = \<lparr>contents = short_bitmap, offset = 54\<rparr>, stderr = [bad_bit_data 0 4 0]\<rparr>)"
  by (simp add: load_row_def read_row_def default_config_def padded4_def cdiv_nonneg too_wide_def
      sizeof_buf_def fread_def short_bitmap_def length_header_8x1)

lemma short_raster_fails:
  "generate_raster no_header default_config
     \<lparr>bitmap = \<lparr>contents = short_bitmap, offset = 0\<rparr>, stderr = []\<rparr> =
   Some (False, raster_settings (default_config\<lparr>width := 8, height := 1\<rparr>),
         default_config\<lparr>width := 8, height := 1\<rparr>,
         \<lparr>bitmap = \<lparr>contents = short_bitmap, offset = 54\<rparr>, stderr = [bad_bit_data 0 4 0]\<rparr>)"
proof -
  let ?w = "\<lparr>bitmap = \<lparr>contents = short_bitmap, offset = 0\<rparr>, stderr = []\<rparr>"
  let ?w1 = "\<lparr>bitmap = \<lparr>contents = short_bitmap, offset = 54\<rparr>, stderr = []\<rparr>"
  let ?c = "default_config\<lparr>width := 8, height := 1\<rparr>"
  have rh: "read_header no_header ?w = (fst (read_header no_header ?w), ?w1)"
    by (simp add: short_header_world [symmetric])
  have c: "?c = reload_size (fst (read_header no_header ?w)) default_config"
    by (simp add: short_reload)
  have seek: "?w1\<lparr>bitmap := fseek 54 (bitmap ?w1)\<rparr> = ?w1"
    by (simp add: fseek_def)
  show ?thesis
  proof (rule generate_raster_first_row_fails [OF _ rh c])
    show "raster_repeat default_config \<noteq> 0" by (simp add: default_config_def)
    show "0 < height ?c" "0 < width ?c" by simp_all
    show "0 < x_repeat ?c" "0 < y_repeat ?c" by (simp_all add: default_config_def)
    show "load_row ?c 0 (row_bytes ?c) (row_stride ?c) (height ?c - 1)
            (?w1\<lparr>bitmap := fseek
               (big_to_little_endian (fst (read_header no_header ?w)) 10 4) (bitmap ?w1)\<rparr>) =
          Some (Inl \<lparr>bitmap = \<lparr>contents = short_bitmap, offset = 54\<rparr>,
                     stderr = [bad_bit_data 0 4 0]\<rparr>)"
      unfolding short_header_fields seek row_8x1 using short_row_fails by simp
  qed
qed

lemma in_bounds_default: "in_bounds default_config"
  by (simp add: in_bounds_def default_config_def)



text \<open>
  Claim C3 is not what the program does. Let \<open>generate_raster\<close> return \<open>false\<close> (a row
  wider than the buffer, or a short read) in a job with a raster block, after writing
  \<open>bs\<close>, and let the vector part write \<open>vs\<close>. No raster byte follows \<open>bs\<close>, but
  \<open>generate_pjl\<close> drops the value returned, goes on to the vector part, the footer and
  the padding, and returns \<open>true\<close>; \<open>main\<close> then hands this job file to \<open>printer_send\<close>, and
  its exit status is that of the delivery.
\<close>

theorem raster_failure_not_propagated:
  assumes "in_bounds c"
    and "raster_power c \<noteq> 0" and "raster_mode c \<noteq> CHR ''n''"
    and "generate_raster header c \<lparr>bitmap = \<lparr>contents = bmp, offset = 0\<rparr>, stderr = []\<rparr> =
           Some (False, bs, c', w')"
    and "vector_part indet c' vector_file = Some vs"
  shows "generate_pjl header indet c vector_file
           \<lparr>bitmap = \<lparr>contents = bmp, offset = 0\<rparr>, stderr = []\<rparr> =
           Some (True,
                 job_header c @ page_setup c @ (raster_intro @ bs) @ vs @ job_footer @ job_padding,
                 w') \<and>
         main_job net header indet host c bmp vector_file =
           Some (if fst (printer_send net c host
                           (job_header c @ page_setup c @ (raster_intro @ bs) @ vs @
                            job_footer @ job_padding))
                 then 0 else 1,
                 job_header c @ page_setup c @ (raster_intro @ bs) @ vs @ job_footer @ job_padding,
                 w',
                 Some (snd (printer_send net c host
                              (job_header c @ page_setup c @ (raster_intro @ bs) @ vs @
                               job_footer @ job_padding))))"
proof -
  have r: "raster_part header c \<lparr>bitmap = \<lparr>contents = bmp, offset = 0\<rparr>, stderr = []\<rparr> =
             Some (raster_intro @ bs, c', w')"
    using assms(2,3,4) by (simp add: raster_part_def)
  have g: "generate_pjl header indet c vector_file
           \<lparr>bitmap = \<lparr>contents = bmp, offset = 0\<rparr>, stderr = []\<rparr> =
           Some (True,
                 job_header c @ page_setup c @ (raster_intro @ bs) @ vs @ job_footer @ job_padding,
                 w')"
    by (simp add: generate_pjl_def r assms(5))
  show ?thesis
    unfolding main_job_def range_checks_noop [OF assms(1)] g
    by (simp add: case_prod_beta)
qed

theorem raster_failure_not_propagated_witness:
  "generate_raster no_header default_config
     \<lparr>bitmap = \<lparr>contents = short_bitmap, offset = 0\<rparr>, stderr = []\<rparr> =
   Some (False, raster_settings (default_config\<lparr>width := 8, height := 1\<rparr>),
         default_config\<lparr>width := 8, height := 1\<rparr>,
         \<lparr>bitmap = \<lparr>contents = short_bitmap, offset = 54\<rparr>, stderr = [bad_bit_data 0 4 0]\<rparr>) \<and>
   (\<exists>job ss.
      generate_pjl no_header no_indet default_config ''''
        \<lparr>bitmap = \<lparr>contents = short_bitmap, offset = 0\<rparr>, stderr = []\<rparr> =
        Some (True, job,
              \<lparr>bitmap = \<lparr>contents = short_bitmap, offset = 54\<rparr>, stderr = [bad_bit_data 0 4 0]\<rparr>) \<and>
      main_job good_printer no_header no_indet ''laser'' default_config short_bitmap '''' =
        Some (0, job,
              \<lparr>bitmap = \<lparr>contents = short_bitmap, offset = 54\<rparr>, stderr = [bad_bit_data 0 4 0]\<rparr>,
              Some ss) \<and>
      concat (drop 4 (written ss)) = job)"
proof -
  let ?c = "default_config\<lparr>width := 8, height := 1\<rparr>"
  have "vector_part no_indet ?c '''' \<noteq> None"
    using generate_vector_total [of ?c no_indet "''''"]
    by (auto simp: vector_part_def default_config_def)
  then obtain vs where vs: "vector_part no_indet ?c '''' = Some vs" by auto
  let ?job = "job_header default_config @ page_setup default_config @
              (raster_intro @ raster_settings ?c) @ vs @ job_footer @ job_padding"
  have rp: "raster_power default_config \<noteq> 0" "raster_mode default_config \<noteq> CHR ''n''"
    by (simp_all add: default_config_def)
  note bug = raster_failure_not_propagated [OF in_bounds_default rp short_raster_fails vs,
      where net = good_printer and host = "''laser''"]
  have conn: "printer_connect good_printer ''laser'' PRINTER_MAX_WAIT =
     (3, 0, [Printed (''trying to connect to 192.168.1.4:515'' @ [LF])])"
    by (rule good_printer_connects) (rule refl)
  have sent: "fst (printer_send good_printer default_config ''laser'' ?job) \<and>
         concat (drop 4 (written (snd (printer_send good_printer default_config ''laser'' ?job)))) = ?job \<and>
         take 1 (written (snd (printer_send good_printer default_config ''laser'' ?job))) =
           [queue_command default_config]"
    by (rule printer_send_accepted [OF conn]) (simp_all add: good_printer_def)
  from bug sent short_raster_fails show ?thesis by auto
qed

text \<open>
  Claim C7. The connection stands and the byte read after the queue command is \<open>b\<close>, not
  zero. Then \<open>printer_send\<close> returns \<open>false\<close>; the queue command is the only data written
  to the socket, and the one read is the only read; and the last message names the host
  and the code: \<open>Bad response from <host>, <b>\<close>.
\<close>

theorem bad_queue_response_aborts:
  assumes "printer_connect net host PRINTER_MAX_WAIT = (sd, sleeps, ms)" and "0 \<le> sd"
    and "acks net 0 = Some b" and "b \<noteq> 0"
  shows "printer_send net c host job =
           (False,
            \<lparr> descriptor = sd, written = [queue_command c], reads = 1, lpdres = b,
              said = ms @ [Printed (''Bad response from '' @ host @ '', '' @ dec_nat (unat b) @ [LF])],
              slept = sleeps \<rparr>)"
  using assms by (rule printer_send_refused)

theorem bad_queue_response_aborts_witness:
  "printer_send refusing_printer default_config ''laser'' [1, 2, 3] =
     (False,
      \<lparr> descriptor = 3, written = [bytes_of [CHR 0x02, LF]], reads = 1, lpdres = 1,
        said = [Printed (''trying to connect to 192.168.1.4:515'' @ [LF]),
                Printed (''Bad response from laser, 1'' @ [LF])],
        slept = 0 \<rparr>)"
proof -
  have conn: "printer_connect refusing_printer ''laser'' PRINTER_MAX_WAIT =
     (3, 0, [Printed (''trying to connect to 192.168.1.4:515'' @ [LF])])"
    by (rule good_printer_connects) (simp add: refusing_printer_def)
  have ack: "acks refusing_printer 0 = Some 1" by (simp add: refusing_printer_def)
  from bad_queue_response_aborts [OF conn _ ack, where c = default_config and job = "[1, 2, 3]"]
  show ?thesis
    by (simp add: queue_command_def default_config_def bytes_of_def LF_def dec_nat.simps
        digit_char_def)
qed

text \<open>
  Claim C8 is not what the program does. Every attempt fails, by a failed lookup or on
  every address. \<open>printer_connect\<close> does retry with a sleep of one second after each of
  the 300 attempts, reports \<open>Cannot connect to <host>\<close> and returns \<open>-1\<close>; but
  \<open>printer_send\<close> never tests that result. Its writes and reads on the descriptor \<open>-1\<close>
  fail, so nothing is transmitted and \<open>lpdres\<close>, which has no initial value, is never
  set. When the byte that \<open>lpdres\<close> occupies holds zero and \<open>fstat\<close> succeeds,
  \<open>printer_send\<close> returns \<open>true\<close>: delivery is reported as done.
\<close>

theorem unreachable_printer_reported_sent:
  assumes "\<forall>k. gai_error (attempts net k) \<noteq> 0 \<or>
      list_all (\<lambda>a. \<not> (0 \<le> socket_result a \<and> connect_ok a)) (candidates (attempts net k))"
    and "lpdres_init net = 0" and "fstat_ok net"
  shows "fst (printer_connect net host PRINTER_MAX_WAIT) = - 1 \<and>
         fst (printer_send net c host job) \<and>
         written (snd (printer_send net c host job)) = [] \<and>
         slept (snd (printer_send net c host job)) = 300 \<and>
         descriptor (snd (printer_send net c host job)) = - 1"
  using printer_send_unreachable [OF assms] printer_connect_exhausts [OF assms(1), of PRINTER_MAX_WAIT host]
  by (simp add: PRINTER_MAX_WAIT_def)

theorem unreachable_printer_reported_sent_witness:
  "fst (printer_connect dead_printer ''laser'' PRINTER_MAX_WAIT) = - 1 \<and>
   fst (printer_send dead_printer default_config ''laser'' [1, 2, 3]) \<and>
   written (snd (printer_send dead_printer default_config ''laser'' [1, 2, 3])) = [] \<and>
   slept (snd (printer_send dead_printer default_config ''laser'' [1, 2, 3])) = 300 \<and>
   descriptor (snd (printer_send dead_printer default_config ''laser'' [1, 2, 3])) = - 1"
proof -
  have "lpdres_init dead_printer = 0" "fstat_ok dead_printer"
    by (simp_all add: dead_printer_def good_printer_def)
  from unreachable_printer_reported_sent [OF dead_printer_fails this] show ?thesis .
qed

end
